theory Spec2Isabelle
  imports Complex_Main "HOL-Library.Word"
begin

section \<open>Data model (types.go, jira.Ticket)\<close>

text \<open>
  The structs of the Go sources as records. Field names follow the source; where two
  structs share a field name (\<open>ID\<close>, \<open>IDRef\<close>, \<open>Type\<close>, \<open>Name\<close>) the later
  record carries a prefix. A \<open>*UserData\<close> pointer is an option, \<open>nil\<close> being \<open>None\<close>;
  a \<open>UserDataItem\<close> is the pair of its \<open>Key\<close> and \<open>Value\<close>.

  \<open>EffortDays\<close> is a \<open>float64\<close> in the source. It is modelled by the rational number
  the float denotes: every finite binary64 value is a rational, and the product
  \<open>EffortDays * 8 * 3600\<close> is computed exactly here, which agrees with binary64
  arithmetic whenever that product is itself representable (all integers and dyadic
  fractions of moderate size, in particular every input evaluated below). NaN and the
  infinities have no counterpart.
\<close>

record Ticket =
  Key :: string
  Summary :: string
  Link :: string
  Assignee :: string
  Status :: string
  EffortDays :: rat
  EpicLink :: string
  DependencyKeys :: "string list"

record Reference =
  IDRef :: string

record PrerequisiteTask =
  PrereqIDRef :: string
  Kind :: string

record Resource =
  ResID :: string
  Name :: string
  ResType :: string
  ChildResources :: "Reference list"

type_synonym UserDataItem = "string \<times> string"

record Task =
  ID :: string
  Title :: string
  Type :: string
  LeveledStart :: string
  Effort :: int
  Recalculate :: string
  StaticCost :: int
  ChildTasks :: "Reference list"
  UserData :: "UserDataItem list option"
  Prerequisites :: "PrerequisiteTask list"
  Assignments :: "Reference list"
  Note :: "string option"

record Color =
  Space :: string
  R :: rat
  G :: rat
  B :: rat

record CriticalPath =
  Root :: string
  Enabled :: string
  PathResources :: string
  PathColor :: "Color option"

record Scenario =
  XMLNS :: string
  OPNS :: string
  ScenarioID :: string
  Granularity :: string
  TopResource :: Reference
  Resources :: "Resource list"
  TopTask :: Reference
  Tasks :: "Task list"
  CriticalPaths :: "CriticalPath list"

record Serializer =
  ProjectName :: string
  GroupByEpic :: bool
  MilestoneDone :: bool

definition Namespace :: string where
  "Namespace = ''http://www.omnigroup.com/namespace/OmniPlan/v2''"

section \<open>The identifier counter and \<open>%d\<close> formatting\<close>

text \<open>
  \<open>idCounter\<close> is a package-level \<open>atomic.Int64\<close>, zero when the process starts;
  \<open>Add(1)\<close> wraps in two's complement. It is threaded through the model as a
  \<open>64 word\<close>. \<open>fmt.Sprintf("%d", v)\<close> prints the signed decimal numeral of \<open>v\<close>.
\<close>

type_synonym counter = "64 word"

definition digit :: "nat \<Rightarrow> char" where
  "digit d = char_of (48 + d)"

fun itoa_nat :: "nat \<Rightarrow> string" where
  "itoa_nat n = (if n < 10 then [digit n] else itoa_nat (n div 10) @ [digit (n mod 10)])"

declare itoa_nat.simps [simp del]

definition itoa :: "int \<Rightarrow> string" where
  "itoa i = (if i < 0 then CHR ''-'' # itoa_nat (nat (- i)) else itoa_nat (nat i))"

definition fmt_d :: "counter \<Rightarrow> string" where
  "fmt_d c = itoa (sint c)"

text \<open>\<open>GenerateID\<close>: the new counter value rendered after the prefix \<open>gen\<close>.\<close>

definition GenerateID :: "counter \<Rightarrow> string \<times> counter" where
  "GenerateID c = (''gen'' @ fmt_d (c + 1), c + 1)"

text \<open>The identifiers returned by \<open>n\<close> successive calls of \<open>GenerateID\<close>.\<close>

fun GenerateIDs :: "nat \<Rightarrow> counter \<Rightarrow> string list" where
  "GenerateIDs 0 c = []"
| "GenerateIDs (Suc n) c = fst (GenerateID c) # GenerateIDs n (snd (GenerateID c))"

section \<open>buildScenario: resource derivation\<close>

record StaffState =
  staffCounter :: counter
  assigneeToResourceID :: "string \<rightharpoonup> string"
  staffResources :: "Resource list"
  childResourceRefs :: "Reference list"

definition staffResource :: "string \<Rightarrow> string \<Rightarrow> Resource" where
  "staffResource resourceID assignee =
     \<lparr>ResID = resourceID, Name = assignee, ResType = ''Staff'', ChildResources = []\<rparr>"

text \<open>One iteration of the loop over the tickets in \<open>buildScenario\<close>.\<close>

definition collectStaff :: "StaffState \<Rightarrow> Ticket \<Rightarrow> StaffState" where
  "collectStaff st ticket =
     (if Assignee ticket \<noteq> [] then
        (case assigneeToResourceID st (Assignee ticket) of
           Some _ \<Rightarrow> st
         | None \<Rightarrow>
             (let n = staffCounter st + 1;
                  resourceID = ''r'' @ fmt_d n
              in st\<lparr>staffCounter := n,
                    assigneeToResourceID := (assigneeToResourceID st)(Assignee ticket \<mapsto> resourceID),
                    staffResources := staffResources st @
                      [staffResource resourceID (Assignee ticket)],
                    childResourceRefs := childResourceRefs st @ [\<lparr>IDRef = resourceID\<rparr>]\<rparr>))
      else st)"

definition initStaff :: "counter \<Rightarrow> StaffState" where
  "initStaff c = \<lparr>staffCounter = c, assigneeToResourceID = Map.empty,
                  staffResources = [], childResourceRefs = []\<rparr>"

section \<open>buildTasksFromTickets\<close>

text \<open>
  The effort of a leaf task. Go's conversion \<open>int64(f)\<close> of a float discards the
  fraction (truncation towards zero); the argument is positive on that branch, so the
  truncation is the floor.
\<close>

definition effortSeconds :: "rat \<Rightarrow> int" where
  "effortSeconds effortDays =
     (if effortDays > 0 then \<lfloor>effortDays * 8 * 3600\<rfloor> else 28800)"

record BuildState =
  idCounter :: counter
  tasks :: "Task list"
  refs :: "Reference list"
  jiraKeyToTaskID :: "string \<rightharpoonup> string"
  taskPtrs :: "Task list"
  epicToChildRefs :: "string \<rightharpoonup> Reference list"
  epicTasks :: "string \<rightharpoonup> Task"
  epicMilestones :: "string \<rightharpoonup> Task"

definition leafTask :: "(string \<rightharpoonup> string) \<Rightarrow> Ticket \<Rightarrow> string \<Rightarrow> Task" where
  "leafTask assignees ticket taskID =
     \<lparr>ID = taskID, Title = Summary ticket, Type = [], LeveledStart = [],
      Effort = effortSeconds (EffortDays ticket), Recalculate = ''duration'',
      StaticCost = 0, ChildTasks = [],
      UserData = Some [(''Jira Key'', Key ticket), (''Jira Link'', Link ticket),
                       (''Jira Status'', Status ticket)],
      Prerequisites = [],
      Assignments =
        (if Assignee ticket \<noteq> [] then
           (case assignees (Assignee ticket) of
              Some resourceID \<Rightarrow> [\<lparr>IDRef = resourceID\<rparr>]
            | None \<Rightarrow> [])
         else []),
      Note = None\<rparr>"

text \<open>
  Reading a Go map at a missing key gives the zero value, for a slice \<open>nil\<close>:
  \<open>append(epicToChildRefs[k], r)\<close> starts a new list there.
\<close>

definition childRefsOf :: "(string \<rightharpoonup> Reference list) \<Rightarrow> string \<Rightarrow> Reference list" where
  "childRefsOf m k = (case m k of None \<Rightarrow> [] | Some cs \<Rightarrow> cs)"

text \<open>First pass, one iteration: the leaf task of a ticket.\<close>

definition createLeaf ::
  "Serializer \<Rightarrow> (string \<rightharpoonup> string) \<Rightarrow> BuildState \<Rightarrow> Ticket \<Rightarrow> BuildState" where
  "createLeaf s assignees st ticket =
     (let n = idCounter st + 1;
          taskID = ''t'' @ fmt_d n;
          st1 = st\<lparr>idCounter := n,
                   jiraKeyToTaskID := (jiraKeyToTaskID st)(Key ticket \<mapsto> taskID),
                   taskPtrs := taskPtrs st @ [leafTask assignees ticket taskID]\<rparr>
      in if GroupByEpic s \<and> EpicLink ticket \<noteq> [] then
           st1\<lparr>epicToChildRefs := (epicToChildRefs st)(EpicLink ticket \<mapsto>
                  childRefsOf (epicToChildRefs st) (EpicLink ticket) @ [\<lparr>IDRef = taskID\<rparr>])\<rparr>
         else st1\<lparr>refs := refs st @ [\<lparr>IDRef = taskID\<rparr>]\<rparr>)"

text \<open>
  Epic materialization: the details of an epic (its key standing in for the summary when
  the epic is not in \<open>epics\<close>), the group task, the milestone task, and one iteration of \<open>for epicKey, children := range epicToChildRefs\<close>.
  Go does not specify the order in which \<open>range\<close> visits the keys of a map, and the
  runtime varies it from one loop to the next. The model takes the order of each such
  loop as a parameter: a list of keys, in a real run a permutation of the keys of the
  map. A key that is not in the map is passed over.
\<close>

definition epicSummaryOf :: "(string \<rightharpoonup> Ticket) \<Rightarrow> string \<Rightarrow> string" where
  "epicSummaryOf epics epicKey =
     (case epics epicKey of Some epicTicket \<Rightarrow> Summary epicTicket | None \<Rightarrow> epicKey)"

definition epicLinkOf :: "(string \<rightharpoonup> Ticket) \<Rightarrow> string \<Rightarrow> string" where
  "epicLinkOf epics epicKey =
     (case epics epicKey of Some epicTicket \<Rightarrow> Link epicTicket | None \<Rightarrow> [])"

definition epicStatusOf :: "(string \<rightharpoonup> Ticket) \<Rightarrow> string \<Rightarrow> string" where
  "epicStatusOf epics epicKey =
     (case epics epicKey of Some epicTicket \<Rightarrow> Status epicTicket | None \<Rightarrow> [])"

definition groupTask ::
  "(string \<rightharpoonup> Ticket) \<Rightarrow> string \<Rightarrow> Reference list \<Rightarrow> string \<Rightarrow> Task" where
  "groupTask epics epicKey children groupID =
     \<lparr>ID = groupID, Title = epicSummaryOf epics epicKey, Type = ''group'',
      LeveledStart = [], Effort = 0, Recalculate = ''duration'', StaticCost = 0,
      ChildTasks = children,
      UserData = Some [(''Jira Key'', epicKey), (''Jira Link'', epicLinkOf epics epicKey),
                       (''Jira Status'', epicStatusOf epics epicKey)],
      Prerequisites = [], Assignments = [], Note = None\<rparr>"

definition milestoneTask ::
  "(string \<rightharpoonup> Ticket) \<Rightarrow> string \<Rightarrow> string \<Rightarrow> string \<Rightarrow> Task" where
  "milestoneTask epics epicKey groupID milestoneID =
     \<lparr>ID = milestoneID, Title = epicSummaryOf epics epicKey @ '' Done'',
      Type = ''milestone'', LeveledStart = [], Effort = 0, Recalculate = ''duration'',
      StaticCost = 0, ChildTasks = [], UserData = None,
      Prerequisites = [\<lparr>PrereqIDRef = groupID, Kind = []\<rparr>],
      Assignments = [], Note = None\<rparr>"

definition createEpic :: "(string \<rightharpoonup> Ticket) \<Rightarrow> BuildState \<Rightarrow> string \<Rightarrow> BuildState" where
  "createEpic epics st epicKey =
     (case epicToChildRefs st epicKey of
        None \<Rightarrow> st
      | Some children \<Rightarrow>
          (let g = idCounter st + 1;
               groupID = ''t'' @ fmt_d g;
               m = g + 1;
               milestoneID = ''t'' @ fmt_d m
           in st\<lparr>idCounter := m,
                 tasks := tasks st @ [groupTask epics epicKey children groupID,
                                      milestoneTask epics epicKey groupID milestoneID],
                 refs := refs st @ [\<lparr>IDRef = groupID\<rparr>, \<lparr>IDRef = milestoneID\<rparr>],
                 epicTasks := (epicTasks st)(epicKey \<mapsto>
                                groupTask epics epicKey children groupID),
                 epicMilestones := (epicMilestones st)(epicKey \<mapsto>
                                milestoneTask epics epicKey groupID milestoneID)\<rparr>))"

text \<open>
  The prerequisites collected for the "Done" milestone: with \<open>GroupByEpic\<close> one entry per
  value of \<open>epicMilestones\<close>, in the order of a second \<open>range\<close> over a map; otherwise
  the milestones among the tasks built so far.
\<close>

definition donePrereqs :: "Serializer \<Rightarrow> string list \<Rightarrow> BuildState \<Rightarrow> PrerequisiteTask list" where
  "donePrereqs s ord2 st =
     (if GroupByEpic s then
        concat (map (\<lambda>k. case epicMilestones st k of
                            None \<Rightarrow> []
                          | Some milestone \<Rightarrow> [\<lparr>PrereqIDRef = ID milestone, Kind = []\<rparr>])
                    ord2)
      else map (\<lambda>t. \<lparr>PrereqIDRef = ID t, Kind = []\<rparr>)
               (filter (\<lambda>t. Type t = ''milestone'') (tasks st)))"

definition doneTask :: "PrerequisiteTask list \<Rightarrow> string \<Rightarrow> Task" where
  "doneTask prereqs milestoneID =
     \<lparr>ID = milestoneID, Title = ''Done'', Type = ''milestone'', LeveledStart = [],
      Effort = 0, Recalculate = ''duration'', StaticCost = 0, ChildTasks = [],
      UserData = None, Prerequisites = prereqs, Assignments = [], Note = None\<rparr>"

definition createDone :: "Serializer \<Rightarrow> string list \<Rightarrow> BuildState \<Rightarrow> BuildState" where
  "createDone s ord2 st =
     (if MilestoneDone s then
        (let prereqs = donePrereqs s ord2 st
         in if length prereqs > 0 then
              (let n = idCounter st + 1;
                   milestoneID = ''t'' @ fmt_d n
               in st\<lparr>idCounter := n,
                     tasks := tasks st @ [doneTask prereqs milestoneID],
                     refs := refs st @ [\<lparr>IDRef = milestoneID\<rparr>]\<rparr>)
            else st)
      else st)"

text \<open>
  Second pass. A dependency key found in \<open>jiraKeyToTaskID\<close> appends a prerequisite to
  \<open>taskPtrs[i]\<close>; a missing one prints a warning. Standard output is modelled as the list
  of lines printed. The index \<open>i\<close> is always in range: the first pass appends one element
  to \<open>taskPtrs\<close> for each ticket.
\<close>

definition depWarning :: "string \<Rightarrow> string \<Rightarrow> string" where
  "depWarning ticketKey depKey =
     ''Warning: Ticket '' @ ticketKey @ '' depends on '' @ depKey @ '', but '' @ depKey @
     '' was not found in the JQL result set.'' @ [CHR 0x0A]"

definition resolveDep ::
  "(string \<rightharpoonup> string) \<Rightarrow> nat \<Rightarrow> Ticket \<Rightarrow> Task list \<times> string list \<Rightarrow> string
     \<Rightarrow> Task list \<times> string list" where
  "resolveDep keyToID i ticket acc depKey =
     (case acc of (ptrs, out) \<Rightarrow>
        (case keyToID depKey of
           Some depID \<Rightarrow>
             (ptrs[i := (ptrs ! i)\<lparr>Prerequisites := Prerequisites (ptrs ! i) @
                                     [\<lparr>PrereqIDRef = depID, Kind = []\<rparr>]\<rparr>], out)
         | None \<Rightarrow> (ptrs, out @ [depWarning (Key ticket) depKey])))"

fun resolveDeps ::
  "(string \<rightharpoonup> string) \<Rightarrow> nat \<Rightarrow> Ticket list \<Rightarrow> Task list \<times> string list
     \<Rightarrow> Task list \<times> string list" where
  "resolveDeps keyToID i [] acc = acc"
| "resolveDeps keyToID i (ticket # rest) acc =
     resolveDeps keyToID (Suc i) rest
       (if length (DependencyKeys ticket) = 0 then acc
        else foldl (resolveDep keyToID i ticket) acc (DependencyKeys ticket))"

definition initBuild :: "counter \<Rightarrow> BuildState" where
  "initBuild c = \<lparr>idCounter = c, tasks = [], refs = [], jiraKeyToTaskID = Map.empty,
                  taskPtrs = [], epicToChildRefs = Map.empty, epicTasks = Map.empty,
                  epicMilestones = Map.empty\<rparr>"

text \<open>The state after the first pass, epic materialization and the "Done" milestone.\<close>

definition buildPhases ::
  "Serializer \<Rightarrow> string list \<Rightarrow> string list \<Rightarrow> Ticket list \<Rightarrow> (string \<rightharpoonup> string)
     \<Rightarrow> (string \<rightharpoonup> Ticket) \<Rightarrow> counter \<Rightarrow> BuildState" where
  "buildPhases s ord1 ord2 tickets assignees epics c =
     (let st1 = foldl (createLeaf s assignees) (initBuild c) tickets;
          st2 = (if GroupByEpic s then foldl (createEpic epics) st1 ord1 else st1)
      in createDone s ord2 st2)"

text \<open>
  \<open>buildTasksFromTickets\<close> returns the tasks and the top-level references; the model
  returns the warnings printed and the new counter value with them. The leaf tasks are
  appended last, after the second pass has added their prerequisites.
\<close>

definition buildTasksFromTickets ::
  "Serializer \<Rightarrow> string list \<Rightarrow> string list \<Rightarrow> Ticket list \<Rightarrow> (string \<rightharpoonup> string)
     \<Rightarrow> (string \<rightharpoonup> Ticket) \<Rightarrow> counter
     \<Rightarrow> Task list \<times> Reference list \<times> string list \<times> counter" where
  "buildTasksFromTickets s ord1 ord2 tickets assignees epics c =
     (let st = buildPhases s ord1 ord2 tickets assignees epics c;
          (ptrs, out) = resolveDeps (jiraKeyToTaskID st) 0 tickets (taskPtrs st, [])
      in (tasks st @ ptrs, refs st, out, idCounter st))"

section \<open>buildScenario and Serialize\<close>

definition buildScenario ::
  "Serializer \<Rightarrow> string list \<Rightarrow> string list \<Rightarrow> Ticket list \<Rightarrow> (string \<rightharpoonup> Ticket)
     \<Rightarrow> counter \<Rightarrow> Scenario \<times> string list \<times> counter" where
  "buildScenario s ord1 ord2 tickets epics c =
     (let (scenarioID, c1) = GenerateID c;
          topResourceID = ''r-1'';
          topTaskID = ''t-1'';
          staff = foldl collectStaff (initStaff c1) tickets;
          (tasks, childTaskRefs, out, c2) =
             buildTasksFromTickets s ord1 ord2 tickets (assigneeToResourceID staff) epics
               (staffCounter staff);
          topTask = \<lparr>ID = topTaskID, Title = [], Type = ''group'', LeveledStart = [],
                     Effort = 0, Recalculate = ''duration'', StaticCost = 0,
                     ChildTasks = childTaskRefs, UserData = None, Prerequisites = [],
                     Assignments = [], Note = None\<rparr>;
          allTasks = [topTask] @ tasks;
          projectResource = \<lparr>ResID = topResourceID, Name = ProjectName s,
                             ResType = ''Project'',
                             ChildResources = childResourceRefs staff\<rparr>;
          allResources = [projectResource] @ staffResources staff
      in (\<lparr>XMLNS = Namespace, OPNS = Namespace, ScenarioID = scenarioID,
           Granularity = ''days'', TopResource = \<lparr>IDRef = topResourceID\<rparr>,
           Resources = allResources, TopTask = \<lparr>IDRef = topTaskID\<rparr>, Tasks = allTasks,
           CriticalPaths = [\<lparr>Root = ''-1'', Enabled = ''false'', PathResources = ''false'',
                             PathColor = Some \<lparr>Space = ''srgb'', R = 1, G = 1/2, B = 1/2\<rparr>\<rparr>]\<rparr>,
          out, c2))"



section \<open>Intermediate states of buildScenario\<close>

text \<open>
  The state of \<open>buildScenario\<close> after its loop over the tickets, and the states of
  \<open>buildTasksFromTickets\<close>, as \<open>buildScenario\<close> calls it, after the first pass and
  after epic materialization.
\<close>

definition staffOf :: "counter \<Rightarrow> Ticket list \<Rightarrow> StaffState" where
  "staffOf c tickets = foldl collectStaff (initStaff (c + 1)) tickets"

definition leafState :: "Serializer \<Rightarrow> Ticket list \<Rightarrow> counter \<Rightarrow> BuildState" where
  "leafState s tickets c =
     foldl (createLeaf s (assigneeToResourceID (staffOf c tickets)))
           (initBuild (staffCounter (staffOf c tickets))) tickets"

definition epicState ::
  "Serializer \<Rightarrow> string list \<Rightarrow> Ticket list \<Rightarrow> (string \<rightharpoonup> Ticket) \<Rightarrow> counter
     \<Rightarrow> BuildState" where
  "epicState s ord1 tickets epics c =
     (if GroupByEpic s then foldl (createEpic epics) (leafState s tickets c) ord1
      else leafState s tickets c)"

section \<open>Vocabulary of the statements\<close>

text \<open>Each element once, in the order of first appearance.\<close>

definition firstAppearance :: "'a list \<Rightarrow> 'a list" where
  "firstAppearance xs = rev (remdups (rev xs))"

text \<open>
  The keys that the first pass enters into \<open>epicToChildRefs\<close>, in the order in which
  the tickets bring them up: the non-empty epic links when \<open>GroupByEpic\<close> is set, none
  otherwise. \<open>epicMilestones\<close> has the same keys after epic materialization. A
  \<open>range\<close> over such a map visits each key once, in an order of the runtime's choosing.
\<close>

definition epicKeys :: "Serializer \<Rightarrow> Ticket list \<Rightarrow> string list" where
  "epicKeys s tickets =
     (if GroupByEpic s then firstAppearance (filter (\<lambda>k. k \<noteq> []) (map EpicLink tickets))
      else [])"

definition rangeOrder :: "Serializer \<Rightarrow> Ticket list \<Rightarrow> string list \<Rightarrow> bool" where
  "rangeOrder s tickets ord \<longleftrightarrow> distinct ord \<and> set ord = set (epicKeys s tickets)"

text \<open>
  The position of the ticket that \<open>jiraKeyToTaskID\<close> associates with a key: the last
  ticket carrying it, since a later assignment to \<open>jiraKeyToTaskID[ticket.Key]\<close>
  overwrites an earlier one (ticket keys are unique in the tracker).
\<close>

definition ticketIndex :: "Ticket list \<Rightarrow> string \<Rightarrow> nat" where
  "ticketIndex tickets k = last (filter (\<lambda>i. Key (tickets ! i) = k) [0..<length tickets])"

text \<open>
  The parts of the emitted task list after the root task: the tasks of epic
  materialization (two per key visited), the "Done" milestone if there is one, and the
  leaf tasks, one per ticket, which \<open>buildTasksFromTickets\<close> appends last.
\<close>

definition epicTaskList :: "string list \<Rightarrow> Scenario \<Rightarrow> Task list" where
  "epicTaskList ord1 scn = take (2 * length ord1) (tl (Tasks scn))"

definition doneTaskList :: "string list \<Rightarrow> Ticket list \<Rightarrow> Scenario \<Rightarrow> Task list" where
  "doneTaskList ord1 tickets scn =
     drop (1 + 2 * length ord1) (take (length (Tasks scn) - length tickets) (Tasks scn))"

definition leafTasks :: "Ticket list \<Rightarrow> Scenario \<Rightarrow> Task list" where
  "leafTasks tickets scn = drop (length (Tasks scn) - length tickets) (Tasks scn)"


section \<open>Example inputs\<close>

text \<open>The inputs of \<open>serializer_test.go\<close>, extended by a second epic, a dependency on a
  ticket outside the input and two fractional efforts.\<close>

definition mkTicket ::
  "string \<Rightarrow> string \<Rightarrow> string \<Rightarrow> rat \<Rightarrow> string \<Rightarrow> string list \<Rightarrow> Ticket" where
  "mkTicket key summary assignee effort epic deps =
     \<lparr>Key = key, Summary = summary, Link = ''http://jira/'' @ key, Assignee = assignee,
      Status = ''Open'', EffortDays = effort, EpicLink = epic, DependencyKeys = deps\<rparr>"

definition testTickets :: "Ticket list" where
  "testTickets =
     [mkTicket ''TEST-1'' ''First Task'' ''Alice Smith'' 2 [] [],
      mkTicket ''TEST-2'' ''Second Task'' ''Bob Jones'' 5 [] [''TEST-1'', ''TEST-9''],
      mkTicket ''TEST-3'' ''Third Task'' ''Alice Smith'' 0 [] [],
      mkTicket ''TEST-4'' ''Fourth Task'' [] 1 [] []]"


definition epicTickets :: "Ticket list" where
  "epicTickets =
     [mkTicket ''TASK-1'' ''Task in Epic'' [] 0 ''EPIC-1'' [],
      mkTicket ''TASK-2'' ''Task No Epic'' [] 0 [] [],
      mkTicket ''TASK-3'' ''Task in Other Epic'' [] 0 ''EPIC-2'' [],
      mkTicket ''TASK-4'' ''Second Task in Epic'' [] 0 ''EPIC-1'' []]"

definition testEpics :: "string \<rightharpoonup> Ticket" where
  "testEpics =
     [''EPIC-1'' \<mapsto> mkTicket ''EPIC-1'' ''Big Project Epic'' [] 0 [] []]"

definition plainSerializer :: Serializer where
  "plainSerializer = \<lparr>ProjectName = ''Test Project'', GroupByEpic = False, MilestoneDone = False\<rparr>"

definition doneSerializer :: Serializer where
  "doneSerializer = \<lparr>ProjectName = ''Test Project'', GroupByEpic = False, MilestoneDone = True\<rparr>"

definition epicSerializer :: Serializer where
  "epicSerializer = \<lparr>ProjectName = ''Epic Project'', GroupByEpic = True, MilestoneDone = True\<rparr>"

section \<open>The first pass in closed form\<close>

lemma createLeaf_fields:
  "idCounter (createLeaf s am st t) = idCounter st + 1"
  "tasks (createLeaf s am st t) = tasks st"
  "epicMilestones (createLeaf s am st t) = epicMilestones st"
  "epicTasks (createLeaf s am st t) = epicTasks st"
  "taskPtrs (createLeaf s am st t) =
     taskPtrs st @ [leafTask am t (''t'' @ fmt_d (idCounter st + 1))]"
  "refs (createLeaf s am st t) =
     (if GroupByEpic s \<and> EpicLink t \<noteq> [] then refs st
      else refs st @ [\<lparr>IDRef = ''t'' @ fmt_d (idCounter st + 1)\<rparr>])"
  "jiraKeyToTaskID (createLeaf s am st t) =
     (jiraKeyToTaskID st)(Key t \<mapsto> ''t'' @ fmt_d (idCounter st + 1))"
  "epicToChildRefs (createLeaf s am st t) =
     (if GroupByEpic s \<and> EpicLink t \<noteq> [] then
        (epicToChildRefs st)(EpicLink t \<mapsto>
           childRefsOf (epicToChildRefs st) (EpicLink t) @
           [\<lparr>IDRef = ''t'' @ fmt_d (idCounter st + 1)\<rparr>])
      else epicToChildRefs st)"
  by (simp_all add: createLeaf_def Let_def)

lemma leaf_counter:
  "idCounter (foldl (createLeaf s am) st ts) = idCounter st + of_nat (length ts)"
  by (induction ts rule: rev_induct) (simp_all add: createLeaf_fields)

lemma leaf_tasks: "tasks (foldl (createLeaf s am) st ts) = tasks st"
  by (induction ts rule: rev_induct) (simp_all add: createLeaf_fields)


lemma leaf_taskPtrs:
  "taskPtrs (foldl (createLeaf s am) st ts) =
     taskPtrs st @ map (\<lambda>i. leafTask am (ts ! i) (''t'' @ fmt_d (idCounter st + 1 + of_nat i)))
                       [0..<length ts]"
proof (induction ts rule: rev_induct)
  case Nil
  show ?case by simp
next
  case (snoc t ts)
  have "map (\<lambda>i. leafTask am ((ts @ [t]) ! i) (''t'' @ fmt_d (idCounter st + 1 + of_nat i)))
            [0..<length ts] =
        map (\<lambda>i. leafTask am (ts ! i) (''t'' @ fmt_d (idCounter st + 1 + of_nat i)))
            [0..<length ts]"
    by (rule map_cong) (simp_all add: nth_append)
  with snoc show ?case
    by (simp add: createLeaf_fields leaf_counter add.commute add.left_commute)
qed

lemma leaf_refs:
  "refs (foldl (createLeaf s am) st ts) =
     refs st @ map (\<lambda>i. \<lparr>IDRef = ''t'' @ fmt_d (idCounter st + 1 + of_nat i)\<rparr>)
                   (filter (\<lambda>i. \<not> (GroupByEpic s \<and> EpicLink (ts ! i) \<noteq> [])) [0..<length ts])"
proof (induction ts rule: rev_induct)
  case Nil
  show ?case by simp
next
  case (snoc t ts)
  have "filter (\<lambda>i. \<not> (GroupByEpic s \<and> EpicLink ((ts @ [t]) ! i) \<noteq> [])) [0..<length ts] =
        filter (\<lambda>i. \<not> (GroupByEpic s \<and> EpicLink (ts ! i) \<noteq> [])) [0..<length ts]"
    by (rule filter_cong) (simp_all add: nth_append)
  with snoc show ?case
    by (simp add: createLeaf_fields leaf_counter add.commute add.left_commute)
qed

lemma leaf_epicToChildRefs:
  "childRefsOf (epicToChildRefs (foldl (createLeaf s am) st ts)) k =
     childRefsOf (epicToChildRefs st) k @
     map (\<lambda>i. \<lparr>IDRef = ''t'' @ fmt_d (idCounter st + 1 + of_nat i)\<rparr>)
         (filter (\<lambda>i. GroupByEpic s \<and> EpicLink (ts ! i) \<noteq> [] \<and> EpicLink (ts ! i) = k) [0..<length ts])"
proof (induction ts rule: rev_induct)
  case Nil
  show ?case by simp
next
  case (snoc t ts)
  have "filter (\<lambda>i. GroupByEpic s \<and> EpicLink ((ts @ [t]) ! i) \<noteq> [] \<and> EpicLink ((ts @ [t]) ! i) = k) [0..<length ts] =
        filter (\<lambda>i. GroupByEpic s \<and> EpicLink (ts ! i) \<noteq> [] \<and> EpicLink (ts ! i) = k) [0..<length ts]"
    by (rule filter_cong) (simp_all add: nth_append)
  with snoc show ?case
    by (auto simp add: createLeaf_fields leaf_counter childRefsOf_def add.commute add.left_commute)
qed

lemma leaf_epic_dom:
  "dom (epicToChildRefs (foldl (createLeaf s am) st ts)) =
     dom (epicToChildRefs st) \<union> {k. GroupByEpic s \<and> k \<noteq> [] \<and> k \<in> EpicLink ` set ts}"
  by (induction ts rule: rev_induct) (auto simp add: createLeaf_fields)

lemma leaf_keymap:
  "jiraKeyToTaskID (foldl (createLeaf s am) st ts) k =
     (case filter (\<lambda>i. Key (ts ! i) = k) [0..<length ts] of
        [] \<Rightarrow> jiraKeyToTaskID st k
      | j # js \<Rightarrow> Some (''t'' @ fmt_d (idCounter st + 1 + of_nat (last (j # js)))))"
proof (induction ts rule: rev_induct)
  case Nil
  show ?case by simp
next
  case (snoc t ts)
  have "filter (\<lambda>i. Key ((ts @ [t]) ! i) = k) [0..<length ts] =
        filter (\<lambda>i. Key (ts ! i) = k) [0..<length ts]"
    by (rule filter_cong) (simp_all add: nth_append)
  with snoc show ?case
    by (auto simp add: createLeaf_fields leaf_counter add.commute add.left_commute split: list.splits)
qed

section \<open>Epic materialization in closed form\<close>

lemma createEpic_unchanged:
  "taskPtrs (createEpic epics st k) = taskPtrs st"
  "jiraKeyToTaskID (createEpic epics st k) = jiraKeyToTaskID st"
  "epicToChildRefs (createEpic epics st k) = epicToChildRefs st"
  by (simp_all add: createEpic_def Let_def split: option.splits)

lemma createEpic_fields:
  assumes "epicToChildRefs st k = Some ch"
  shows "idCounter (createEpic epics st k) = idCounter st + 2"
    and "tasks (createEpic epics st k) =
           tasks st @ [groupTask epics k ch (''t'' @ fmt_d (idCounter st + 1)),
                       milestoneTask epics k (''t'' @ fmt_d (idCounter st + 1))
                         (''t'' @ fmt_d (idCounter st + 2))]"
    and "refs (createEpic epics st k) =
           refs st @ [\<lparr>IDRef = ''t'' @ fmt_d (idCounter st + 1)\<rparr>,
                      \<lparr>IDRef = ''t'' @ fmt_d (idCounter st + 2)\<rparr>]"
    and "epicMilestones (createEpic epics st k) =
           (epicMilestones st)(k \<mapsto> milestoneTask epics k (''t'' @ fmt_d (idCounter st + 1))
                                     (''t'' @ fmt_d (idCounter st + 2)))"
  using assms by (simp_all add: createEpic_def Let_def add.assoc)

lemma epic_unchanged:
  "taskPtrs (foldl (createEpic epics) st ord) = taskPtrs st"
  "jiraKeyToTaskID (foldl (createEpic epics) st ord) = jiraKeyToTaskID st"
  "epicToChildRefs (foldl (createEpic epics) st ord) = epicToChildRefs st"
  by (induction ord rule: rev_induct) (simp_all add: createEpic_unchanged)

lemma epic_counter:
  "set ord \<subseteq> dom (epicToChildRefs st) \<Longrightarrow>
   idCounter (foldl (createEpic epics) st ord) = idCounter st + 2 * of_nat (length ord)"
proof (induction ord rule: rev_induct)
  case Nil
  show ?case by simp
next
  case (snoc k ord)
  then obtain ch where "epicToChildRefs (foldl (createEpic epics) st ord) k = Some ch"
    by (auto simp add: epic_unchanged)
  with snoc show ?case
    by (simp add: createEpic_fields algebra_simps)
qed

lemma epic_tasks:
  "set ord \<subseteq> dom (epicToChildRefs st) \<Longrightarrow>
   tasks (foldl (createEpic epics) st ord) =
     tasks st @
     concat (map (\<lambda>(j, k). [groupTask epics k (childRefsOf (epicToChildRefs st) k)
                               (''t'' @ fmt_d (idCounter st + 2 * of_nat j + 1)),
                             milestoneTask epics k
                               (''t'' @ fmt_d (idCounter st + 2 * of_nat j + 1))
                               (''t'' @ fmt_d (idCounter st + 2 * of_nat j + 2))])
                 (enumerate 0 ord))"
proof (induction ord rule: rev_induct)
  case Nil
  show ?case by simp
next
  case (snoc k ord)
  then obtain ch where ch: "epicToChildRefs st k = Some ch"
    by auto
  then have ch': "epicToChildRefs (foldl (createEpic epics) st ord) k = Some ch"
    by (simp add: epic_unchanged)
  have sub: "set ord \<subseteq> dom (epicToChildRefs st)"
    using snoc.prems by simp
  from snoc.IH [OF sub] ch show ?case
    by (simp add: createEpic_fields [OF ch'] epic_counter [OF sub] enumerate_append_eq
          childRefsOf_def)
qed

lemma epic_refs:
  "set ord \<subseteq> dom (epicToChildRefs st) \<Longrightarrow>
   refs (foldl (createEpic epics) st ord) =
     refs st @
     concat (map (\<lambda>(j, k). [\<lparr>IDRef = ''t'' @ fmt_d (idCounter st + 2 * of_nat j + 1)\<rparr>,
                             \<lparr>IDRef = ''t'' @ fmt_d (idCounter st + 2 * of_nat j + 2)\<rparr>])
                 (enumerate 0 ord))"
proof (induction ord rule: rev_induct)
  case Nil
  show ?case by simp
next
  case (snoc k ord)
  then obtain ch where ch: "epicToChildRefs st k = Some ch"
    by auto
  then have ch': "epicToChildRefs (foldl (createEpic epics) st ord) k = Some ch"
    by (simp add: epic_unchanged)
  have sub: "set ord \<subseteq> dom (epicToChildRefs st)"
    using snoc.prems by simp
  from snoc.IH [OF sub] show ?case
    by (simp add: createEpic_fields [OF ch'] epic_counter [OF sub] enumerate_append_eq)
qed

lemma epic_milestones_other:
  "k \<notin> set ord \<Longrightarrow> epicMilestones (foldl (createEpic epics) st ord) k = epicMilestones st k"
  by (induction ord rule: rev_induct)
     (auto simp add: createEpic_def Let_def split: option.splits)

lemma epic_milestones:
  "set ord \<subseteq> dom (epicToChildRefs st) \<Longrightarrow> distinct ord \<Longrightarrow> j < length ord \<Longrightarrow>
   epicMilestones (foldl (createEpic epics) st ord) (ord ! j) =
     Some (milestoneTask epics (ord ! j)
             (''t'' @ fmt_d (idCounter st + 2 * of_nat j + 1))
             (''t'' @ fmt_d (idCounter st + 2 * of_nat j + 2)))"
proof (induction ord rule: rev_induct)
  case Nil
  then show ?case by simp
next
  case (snoc k ord)
  then obtain ch where ch: "epicToChildRefs st k = Some ch"
    by auto
  then have ch': "epicToChildRefs (foldl (createEpic epics) st ord) k = Some ch"
    by (simp add: epic_unchanged)
  have sub: "set ord \<subseteq> dom (epicToChildRefs st)" and dist: "distinct ord" and new: "k \<notin> set ord"
    using snoc.prems by simp_all
  show ?case
  proof (cases "j < length ord")
    case True
    then have "ord ! j \<noteq> k"
      using new by auto
    with True snoc.IH [OF sub dist True] show ?thesis
      by (simp add: createEpic_fields [OF ch'] nth_append)
  next
    case False
    with snoc.prems have "j = length ord"
      by simp
    then show ?thesis
      by (simp add: createEpic_fields [OF ch'] epic_counter [OF sub])
  qed
qed

lemma concat_pairs_length: "length (concat (map (\<lambda>x. [g x, h x]) xs)) = 2 * length xs"
  by (induction xs) simp_all

lemma concat_pairs_nth:
  "j < length xs \<Longrightarrow>
   concat (map (\<lambda>x. [g x, h x]) xs) ! (2 * j) = g (xs ! j) \<and>
   concat (map (\<lambda>x. [g x, h x]) xs) ! (2 * j + 1) = h (xs ! j)"
proof (induction xs arbitrary: j)
  case Nil
  then show ?case by simp
next
  case (Cons x xs)
  show ?case
  proof (cases j)
    case 0
    then show ?thesis by simp
  next
    case (Suc i)
    with Cons.prems have "i < length xs" by simp
    from Cons.IH [OF this] Suc show ?thesis by simp
  qed
qed

section \<open>The second pass in closed form\<close>

lemma resolveDep_fold:
  "i < length ptrs \<Longrightarrow>
   foldl (resolveDep m i t) (ptrs, out) ks =
     (ptrs[i := (ptrs ! i)\<lparr>Prerequisites := Prerequisites (ptrs ! i) @
                   map (\<lambda>k. \<lparr>PrereqIDRef = the (m k), Kind = []\<rparr>)
                       (filter (\<lambda>k. m k \<noteq> None) ks)\<rparr>],
      out @ map (depWarning (Key t)) (filter (\<lambda>k. m k = None) ks))"
proof (induction ks arbitrary: ptrs out)
  case Nil
  show ?case by simp
next
  case (Cons k ks)
  show ?case
  proof (cases "m k")
    case None
    with Cons show ?thesis
      by (simp add: resolveDep_def)
  next
    case (Some d)
    with Cons show ?thesis
      by (simp add: resolveDep_def)
  qed
qed

lemma resolveDeps_length:
  "i + length ts \<le> length ptrs \<Longrightarrow>
   length (fst (resolveDeps m i ts (ptrs, out))) = length ptrs"
proof (induction ts arbitrary: i ptrs out)
  case Nil
  show ?case by simp
next
  case (Cons t ts)
  then have i: "i < length ptrs" by simp
  with Cons.prems show ?case
    by (simp add: resolveDep_fold Cons.IH)
qed

lemma resolveDeps_nth:
  "i + length ts \<le> length ptrs \<Longrightarrow> j < length ptrs \<Longrightarrow>
   fst (resolveDeps m i ts (ptrs, out)) ! j =
     (if i \<le> j \<and> j < i + length ts then
        (ptrs ! j)\<lparr>Prerequisites := Prerequisites (ptrs ! j) @
            map (\<lambda>k. \<lparr>PrereqIDRef = the (m k), Kind = []\<rparr>)
                (filter (\<lambda>k. m k \<noteq> None) (DependencyKeys (ts ! (j - i))))\<rparr>
      else ptrs ! j)"
proof (induction ts arbitrary: i ptrs out)
  case Nil
  show ?case by auto
next
  case (Cons t ts)
  then have i: "i < length ptrs" by simp
  show ?case
  proof (cases "DependencyKeys t = []")
    case True
    with Cons.prems Cons.IH [of "Suc i" ptrs out] show ?thesis
      by (auto simp add: nth_Cons' le_Suc_eq)
  next
    case False
    with Cons.prems i
      Cons.IH [of "Suc i" "ptrs[i := (ptrs ! i)\<lparr>Prerequisites := Prerequisites (ptrs ! i) @
                   map (\<lambda>k. \<lparr>PrereqIDRef = the (m k), Kind = []\<rparr>)
                       (filter (\<lambda>k. m k \<noteq> None) (DependencyKeys t))\<rparr>]"
                "out @ map (depWarning (Key t)) (filter (\<lambda>k. m k = None) (DependencyKeys t))"]
    show ?thesis
      by (auto simp add: resolveDep_fold nth_Cons' nth_list_update le_Suc_eq)
  qed
qed

lemma resolveDeps_out:
  "i + length ts \<le> length ptrs \<Longrightarrow>
   snd (resolveDeps m i ts (ptrs, out)) =
     out @ concat (map (\<lambda>t. map (depWarning (Key t)) (filter (\<lambda>k. m k = None) (DependencyKeys t)))
                       ts)"
proof (induction ts arbitrary: i ptrs out)
  case Nil
  show ?case by simp
next
  case (Cons t ts)
  then have i: "i < length ptrs" by simp
  with Cons.prems show ?case
    by (simp add: resolveDep_fold Cons.IH)
qed

section \<open>Resource derivation in closed form\<close>

lemma firstAppearance_snoc:
  "firstAppearance (xs @ [x]) =
     (if x \<in> set xs then firstAppearance xs else firstAppearance xs @ [x])"
  by (simp add: firstAppearance_def)

lemma set_firstAppearance: "set (firstAppearance xs) = set xs"
  by (simp add: firstAppearance_def)

lemma distinct_firstAppearance: "distinct (firstAppearance xs)"
  by (simp add: firstAppearance_def)

lemma collectStaff_skip:
  "Assignee t = [] \<or> assigneeToResourceID st (Assignee t) \<noteq> None \<Longrightarrow> collectStaff st t = st"
  by (auto simp add: collectStaff_def)

lemma collectStaff_new:
  "Assignee t \<noteq> [] \<Longrightarrow> assigneeToResourceID st (Assignee t) = None \<Longrightarrow>
   collectStaff st t =
     st\<lparr>staffCounter := staffCounter st + 1,
        assigneeToResourceID :=
          (assigneeToResourceID st)(Assignee t \<mapsto> ''r'' @ fmt_d (staffCounter st + 1)),
        staffResources := staffResources st @
          [staffResource (''r'' @ fmt_d (staffCounter st + 1)) (Assignee t)],
        childResourceRefs := childResourceRefs st @
          [\<lparr>IDRef = ''r'' @ fmt_d (staffCounter st + 1)\<rparr>]\<rparr>"
  by (simp add: collectStaff_def Let_def)

lemma staff_closed:
  "staffCounter (foldl collectStaff (initStaff c) ts) =
     c + of_nat (length (firstAppearance (filter (\<lambda>a. a \<noteq> []) (map Assignee ts)))) \<and>
   staffResources (foldl collectStaff (initStaff c) ts) =
     map (\<lambda>(j, a). staffResource (''r'' @ fmt_d (c + 1 + of_nat j)) a)
         (enumerate 0 (firstAppearance (filter (\<lambda>a. a \<noteq> []) (map Assignee ts)))) \<and>
   childResourceRefs (foldl collectStaff (initStaff c) ts) =
     map (\<lambda>(j, a). \<lparr>IDRef = ''r'' @ fmt_d (c + 1 + of_nat j)\<rparr>)
         (enumerate 0 (firstAppearance (filter (\<lambda>a. a \<noteq> []) (map Assignee ts)))) \<and>
   dom (assigneeToResourceID (foldl collectStaff (initStaff c) ts)) =
     set (firstAppearance (filter (\<lambda>a. a \<noteq> []) (map Assignee ts))) \<and>
   (\<forall>j < length (firstAppearance (filter (\<lambda>a. a \<noteq> []) (map Assignee ts))).
      assigneeToResourceID (foldl collectStaff (initStaff c) ts)
        (firstAppearance (filter (\<lambda>a. a \<noteq> []) (map Assignee ts)) ! j) =
      Some (''r'' @ fmt_d (c + 1 + of_nat j)))"
proof (induction ts rule: rev_induct)
  case Nil
  show ?case by (simp add: initStaff_def firstAppearance_def)
next
  case (snoc t ts)
  define st where "st = foldl collectStaff (initStaff c) ts"
  define names where "names = firstAppearance (filter (\<lambda>a. a \<noteq> []) (map Assignee ts))"
  note IH = snoc.IH [folded st_def names_def]
  show ?case
  proof (cases "Assignee t = []")
    case True
    with snoc.IH show ?thesis
      by (simp add: collectStaff_skip)
  next
    case False
    show ?thesis
    proof (cases "Assignee t \<in> set names")
      case True
      with IH obtain r where "assigneeToResourceID st (Assignee t) = Some r"
        by (metis domD)
      moreover have "Assignee t \<in> set (filter (\<lambda>a. a \<noteq> []) (map Assignee ts))"
        using True by (simp add: names_def set_firstAppearance)
      ultimately show ?thesis
        using IH False
        by (simp add: collectStaff_skip firstAppearance_snoc st_def [symmetric]
              names_def [symmetric])
    next
      case new: False
      with IH have none: "assigneeToResourceID st (Assignee t) = None"
        by (metis domIff)
      have notin: "Assignee t \<notin> set (filter (\<lambda>a. a \<noteq> []) (map Assignee ts))"
        using new by (simp add: names_def set_firstAppearance)
      have neq: "\<And>j. j < length names \<Longrightarrow> names ! j \<noteq> Assignee t"
        using new nth_mem by metis
      have step: "foldl collectStaff (initStaff c) (ts @ [t]) =
          st\<lparr>staffCounter := staffCounter st + 1,
             assigneeToResourceID :=
               (assigneeToResourceID st)(Assignee t \<mapsto> ''r'' @ fmt_d (staffCounter st + 1)),
             staffResources := staffResources st @
               [staffResource (''r'' @ fmt_d (staffCounter st + 1)) (Assignee t)],
             childResourceRefs := childResourceRefs st @
               [\<lparr>IDRef = ''r'' @ fmt_d (staffCounter st + 1)\<rparr>]\<rparr>"
        using False none by (simp add: collectStaff_new st_def [symmetric])
      have names': "firstAppearance (filter (\<lambda>a. a \<noteq> []) (map Assignee (ts @ [t]))) =
          names @ [Assignee t]"
        using False notin by (simp add: firstAppearance_snoc names_def)
      have cnt: "staffCounter st + 1 = c + 1 + of_nat (length names)"
        using IH by simp
      have d: "dom ((assigneeToResourceID st)(Assignee t \<mapsto> ''r'' @ fmt_d (staffCounter st + 1))) =
          set (names @ [Assignee t])"
        using IH by simp
      have m: "\<forall>j < length (names @ [Assignee t]).
          ((assigneeToResourceID st)(Assignee t \<mapsto> ''r'' @ fmt_d (staffCounter st + 1)))
            ((names @ [Assignee t]) ! j) = Some (''r'' @ fmt_d (c + 1 + of_nat j))"
        using IH neq cnt by (auto simp add: nth_append less_Suc_eq ac_simps)
      have domiff: "\<And>x. (\<exists>y. assigneeToResourceID st x = Some y) = (x \<in> set names)"
        using IH by (metis domD domI)
      show ?thesis
        unfolding step names'
        apply (intro conjI)
        subgoal using IH by (simp add: ac_simps)
        subgoal using IH by (simp add: enumerate_append_eq ac_simps)
        subgoal using IH by (simp add: enumerate_append_eq ac_simps)
        subgoal by (auto simp add: dom_def domiff split: if_splits)
        subgoal using m by (auto split: if_splits)
        done
    qed
  qed
qed

section \<open>The result of buildTasksFromTickets\<close>

lemma createDone_unchanged:
  "taskPtrs (createDone s ord2 st) = taskPtrs st"
  "jiraKeyToTaskID (createDone s ord2 st) = jiraKeyToTaskID st"
  by (simp_all add: createDone_def Let_def)

lemma phases_taskPtrs:
  "taskPtrs (buildPhases s ord1 ord2 ts am epics c) =
     map (\<lambda>i. leafTask am (ts ! i) (''t'' @ fmt_d (c + 1 + of_nat i))) [0..<length ts]"
  by (simp add: buildPhases_def Let_def createDone_unchanged epic_unchanged leaf_taskPtrs
        initBuild_def)

lemma key_image_nth: "(k \<in> Key ` set ts) = (\<exists>i<length ts. Key (ts ! i) = k)"
  by (metis (no_types, lifting) image_iff in_set_conv_nth)

lemma key_filter_empty:
  "(filter (\<lambda>i. Key (ts ! i) = k) [0..<length ts] = []) = (k \<notin> Key ` set ts)"
  by (simp add: filter_empty_conv key_image_nth Ball_def)

lemma phases_keymap:
  "jiraKeyToTaskID (buildPhases s ord1 ord2 ts am epics c) k =
     (if k \<in> Key ` set ts then Some (''t'' @ fmt_d (c + 1 + of_nat (ticketIndex ts k)))
      else None)"
proof (cases "filter (\<lambda>i. Key (ts ! i) = k) [0..<length ts]")
  case Nil
  then show ?thesis
    using key_filter_empty [of ts k]
    by (simp add: buildPhases_def Let_def createDone_unchanged epic_unchanged leaf_keymap
          initBuild_def)
next
  case (Cons j js)
  then show ?thesis
    using key_filter_empty [of ts k]
    by (simp add: buildPhases_def Let_def createDone_unchanged epic_unchanged leaf_keymap
          initBuild_def ticketIndex_def)
qed


lemma build_result:
  "buildTasksFromTickets s ord1 ord2 ts am epics c =
     (tasks (buildPhases s ord1 ord2 ts am epics c) @
      map (\<lambda>i. (leafTask am (ts ! i) (''t'' @ fmt_d (c + 1 + of_nat i)))
                 \<lparr>Prerequisites :=
                    map (\<lambda>k. \<lparr>PrereqIDRef = ''t'' @ fmt_d (c + 1 + of_nat (ticketIndex ts k)),
                              Kind = []\<rparr>)
                        (filter (\<lambda>k. k \<in> Key ` set ts) (DependencyKeys (ts ! i)))\<rparr>)
          [0..<length ts],
      refs (buildPhases s ord1 ord2 ts am epics c),
      concat (map (\<lambda>t. map (depWarning (Key t))
                            (filter (\<lambda>k. k \<notin> Key ` set ts) (DependencyKeys t))) ts),
      idCounter (buildPhases s ord1 ord2 ts am epics c))"
proof -
  define st where "st = buildPhases s ord1 ord2 ts am epics c"
  define m where "m = jiraKeyToTaskID st"
  define ptrs where "ptrs = taskPtrs st"
  have len: "length ptrs = length ts"
    by (simp add: ptrs_def st_def phases_taskPtrs)
  have m: "\<And>k. m k = (if k \<in> Key ` set ts
                        then Some (''t'' @ fmt_d (c + 1 + of_nat (ticketIndex ts k))) else None)"
    by (simp add: m_def st_def phases_keymap)
  have f1: "filter (\<lambda>k. \<exists>y. m k = Some y) ks = filter (\<lambda>k. k \<in> Key ` set ts) ks" for ks
    by (rule filter_cong) (simp_all add: m)
  have f2: "filter (\<lambda>k. m k = None) ks = filter (\<lambda>k. k \<notin> Key ` set ts) ks" for ks
    by (rule filter_cong) (simp_all add: m)
  have m1: "map (\<lambda>k. \<lparr>PrereqIDRef = the (m k), Kind = []\<rparr>) (filter (\<lambda>k. k \<in> Key ` set ts) ks) =
            map (\<lambda>k. \<lparr>PrereqIDRef = ''t'' @ fmt_d (c + 1 + of_nat (ticketIndex ts k)), Kind = []\<rparr>)
                (filter (\<lambda>k. k \<in> Key ` set ts) ks)" for ks
    by (rule map_cong) (simp_all add: m)
  have out: "snd (resolveDeps m 0 ts (ptrs, [])) =
      concat (map (\<lambda>t. map (depWarning (Key t))
                            (filter (\<lambda>k. k \<notin> Key ` set ts) (DependencyKeys t))) ts)"
    using len by (simp add: resolveDeps_out f2)
  have "fst (resolveDeps m 0 ts (ptrs, [])) =
      map (\<lambda>i. (leafTask am (ts ! i) (''t'' @ fmt_d (c + 1 + of_nat i)))
                 \<lparr>Prerequisites :=
                    map (\<lambda>k. \<lparr>PrereqIDRef = ''t'' @ fmt_d (c + 1 + of_nat (ticketIndex ts k)),
                              Kind = []\<rparr>)
                        (filter (\<lambda>k. k \<in> Key ` set ts) (DependencyKeys (ts ! i)))\<rparr>)
          [0..<length ts]"
  proof (rule nth_equalityI)
    show "length (fst (resolveDeps m 0 ts (ptrs, []))) = length (map (\<lambda>i. (leafTask am (ts ! i) (''t'' @ fmt_d (c + 1 + of_nat i)))
                 \<lparr>Prerequisites :=
                    map (\<lambda>k. \<lparr>PrereqIDRef = ''t'' @ fmt_d (c + 1 + of_nat (ticketIndex ts k)),
                              Kind = []\<rparr>)
                        (filter (\<lambda>k. k \<in> Key ` set ts) (DependencyKeys (ts ! i)))\<rparr>)
          [0..<length ts])"
      using len by (simp add: resolveDeps_length)
  next
    fix j
    assume "j < length (fst (resolveDeps m 0 ts (ptrs, [])))"
    then have j: "j < length ts"
      using len by (simp add: resolveDeps_length)
    then have "ptrs ! j = leafTask am (ts ! j) (''t'' @ fmt_d (c + 1 + of_nat j))"
      by (simp add: ptrs_def st_def phases_taskPtrs)
    moreover have "Prerequisites (leafTask am (ts ! j) (''t'' @ fmt_d (c + 1 + of_nat j))) = []"
      by (simp add: leafTask_def)
    ultimately show "fst (resolveDeps m 0 ts (ptrs, [])) ! j =
       map (\<lambda>i. (leafTask am (ts ! i) (''t'' @ fmt_d (c + 1 + of_nat i)))
                 \<lparr>Prerequisites :=
                    map (\<lambda>k. \<lparr>PrereqIDRef = ''t'' @ fmt_d (c + 1 + of_nat (ticketIndex ts k)),
                              Kind = []\<rparr>)
                        (filter (\<lambda>k. k \<in> Key ` set ts) (DependencyKeys (ts ! i)))\<rparr>)
          [0..<length ts] ! j"
      using j len by (simp add: resolveDeps_nth f1 m1)
  qed
  with out show ?thesis
    by (auto simp add: buildTasksFromTickets_def Let_def st_def [symmetric] m_def [symmetric]
          ptrs_def [symmetric] split: prod.splits)
qed

section \<open>The emitted scenario\<close>

lemma scenario_Tasks:
  "Tasks (fst (buildScenario s ord1 ord2 ts epics c)) =
     \<lparr>ID = ''t-1'', Title = [], Type = ''group'', LeveledStart = [], Effort = 0,
      Recalculate = ''duration'', StaticCost = 0,
      ChildTasks = fst (snd (buildTasksFromTickets s ord1 ord2 ts
                     (assigneeToResourceID (foldl collectStaff (initStaff (c + 1)) ts)) epics
                     (staffCounter (foldl collectStaff (initStaff (c + 1)) ts)))),
      UserData = None, Prerequisites = [], Assignments = [], Note = None\<rparr> #
     fst (buildTasksFromTickets s ord1 ord2 ts
            (assigneeToResourceID (foldl collectStaff (initStaff (c + 1)) ts)) epics
            (staffCounter (foldl collectStaff (initStaff (c + 1)) ts)))"
  by (simp add: buildScenario_def GenerateID_def Let_def split: prod.splits)


lemma scenario_Resources:
  "Resources (fst (buildScenario s ord1 ord2 ts epics c)) =
     \<lparr>ResID = ''r-1'', Name = ProjectName s, ResType = ''Project'',
      ChildResources = childResourceRefs (foldl collectStaff (initStaff (c + 1)) ts)\<rparr> #
     staffResources (foldl collectStaff (initStaff (c + 1)) ts)"
  by (simp add: buildScenario_def GenerateID_def Let_def split: prod.splits)

lemma scenario_leafTasks:
  "leafTasks ts (fst (buildScenario s ord1 ord2 ts epics c)) =
     map (\<lambda>i. (leafTask (assigneeToResourceID (foldl collectStaff (initStaff (c + 1)) ts)) (ts ! i)
                  (''t'' @ fmt_d (staffCounter (foldl collectStaff (initStaff (c + 1)) ts) + 1 +
                                  of_nat i)))
                 \<lparr>Prerequisites :=
                    map (\<lambda>k. \<lparr>PrereqIDRef = ''t'' @ fmt_d
                                 (staffCounter (foldl collectStaff (initStaff (c + 1)) ts) + 1 +
                                  of_nat (ticketIndex ts k)),
                              Kind = []\<rparr>)
                        (filter (\<lambda>k. k \<in> Key ` set ts) (DependencyKeys (ts ! i)))\<rparr>)
          [0..<length ts]"
  by (simp add: leafTasks_def scenario_Tasks build_result)

section \<open>Leaf task effort (C3)\<close>







section \<open>Dependency resolution (C5)\<close>



section \<open>Resources and assignments (C7)\<close>

lemma staff_names:
  "map Name (staffResources (foldl collectStaff (initStaff c) ts)) =
     firstAppearance (filter (\<lambda>a. a \<noteq> []) (map Assignee ts))"
proof -
  have "map Name (map (\<lambda>(j, a). staffResource (''r'' @ fmt_d (c + 1 + of_nat j)) a)
                      (enumerate n xs)) = xs" for xs :: "string list" and n
    by (induction xs arbitrary: n) (simp_all add: staffResource_def)
  then show ?thesis
    using staff_closed [of c ts] by simp
qed

lemma staff_refs:
  "childResourceRefs (foldl collectStaff (initStaff c) ts) =
     map (\<lambda>r. \<lparr>IDRef = ResID r\<rparr>) (staffResources (foldl collectStaff (initStaff c) ts))"
  using staff_closed [of c ts] by (simp add: staffResource_def case_prod_beta)

lemma staff_kind:
  "r \<in> set (staffResources (foldl collectStaff (initStaff c) ts)) \<Longrightarrow>
   ResType r = ''Staff'' \<and> ChildResources r = []"
  using staff_closed [of c ts] by (auto simp add: staffResource_def)

lemma staff_lookup:
  assumes "a \<noteq> []" and "a \<in> Assignee ` set ts"
  shows "\<exists>j < length (staffResources (foldl collectStaff (initStaff c) ts)).
           Name (staffResources (foldl collectStaff (initStaff c) ts) ! j) = a \<and>
           assigneeToResourceID (foldl collectStaff (initStaff c) ts) a =
             Some (ResID (staffResources (foldl collectStaff (initStaff c) ts) ! j))"
proof -
  define names where "names = firstAppearance (filter (\<lambda>a. a \<noteq> []) (map Assignee ts))"
  from assms have "a \<in> set names"
    by (auto simp add: names_def set_firstAppearance)
  then obtain j where j: "j < length names" "names ! j = a"
    by (auto simp add: in_set_conv_nth)
  note cl = staff_closed [of c ts, folded names_def]
  from cl j have "assigneeToResourceID (foldl collectStaff (initStaff c) ts) a =
      Some (''r'' @ fmt_d (c + 1 + of_nat j))"
    by blast
  moreover from cl j
  have "staffResources (foldl collectStaff (initStaff c) ts) ! j =
      staffResource (''r'' @ fmt_d (c + 1 + of_nat j)) a"
    by (simp add: nth_enumerate_eq)
  moreover from cl have "length (staffResources (foldl collectStaff (initStaff c) ts)) = length names"
    by simp
  ultimately show ?thesis
    using j by (auto simp add: staffResource_def)
qed

text \<open>
  C7. The resource list starts with the one Project resource \<open>r-1\<close>, whose children
  reference the Staff resources in order; the Staff resources follow, one per distinct
  non-empty assignee name in order of first appearance, each of type Staff and without
  children. The leaf task of a ticket without assignee has no assignment; the leaf task
  of a ticket with an assignee is assigned the Staff resource of that name, so tickets
  sharing a name share the resource.
\<close>

theorem resources_per_assignee:
  "Resources (fst (buildScenario s ord1 ord2 tickets epics c)) \<noteq> [] \<and>
   ResID (hd (Resources (fst (buildScenario s ord1 ord2 tickets epics c)))) = ''r-1'' \<and>
   Name (hd (Resources (fst (buildScenario s ord1 ord2 tickets epics c)))) = ProjectName s \<and>
   ResType (hd (Resources (fst (buildScenario s ord1 ord2 tickets epics c)))) = ''Project'' \<and>
   length (filter (\<lambda>r. ResType r = ''Project'')
             (Resources (fst (buildScenario s ord1 ord2 tickets epics c)))) = 1 \<and>
   ChildResources (hd (Resources (fst (buildScenario s ord1 ord2 tickets epics c)))) =
     map (\<lambda>r. \<lparr>IDRef = ResID r\<rparr>)
         (tl (Resources (fst (buildScenario s ord1 ord2 tickets epics c)))) \<and>
   map Name (tl (Resources (fst (buildScenario s ord1 ord2 tickets epics c)))) =
     firstAppearance (filter (\<lambda>a. a \<noteq> []) (map Assignee tickets)) \<and>
   distinct (map Name (tl (Resources (fst (buildScenario s ord1 ord2 tickets epics c))))) \<and>
   (\<forall>r \<in> set (tl (Resources (fst (buildScenario s ord1 ord2 tickets epics c)))).
      ResType r = ''Staff'' \<and> ChildResources r = []) \<and>
   (\<forall>i < length tickets.
      (Assignee (tickets ! i) = [] \<longrightarrow>
         Assignments (leafTasks tickets (fst (buildScenario s ord1 ord2 tickets epics c)) ! i) = []) \<and>
      (Assignee (tickets ! i) \<noteq> [] \<longrightarrow>
         (\<exists>j < length (tl (Resources (fst (buildScenario s ord1 ord2 tickets epics c)))).
            Name (tl (Resources (fst (buildScenario s ord1 ord2 tickets epics c))) ! j) =
              Assignee (tickets ! i) \<and>
            Assignments (leafTasks tickets (fst (buildScenario s ord1 ord2 tickets epics c)) ! i) =
              [\<lparr>IDRef = ResID (tl (Resources (fst (buildScenario s ord1 ord2 tickets epics c))) ! j)\<rparr>])))"
proof -
  define staff where "staff = staffResources (foldl collectStaff (initStaff (c + 1)) tickets)"
  define am where "am = assigneeToResourceID (foldl collectStaff (initStaff (c + 1)) tickets)"
  have res: "Resources (fst (buildScenario s ord1 ord2 tickets epics c)) =
      \<lparr>ResID = ''r-1'', Name = ProjectName s, ResType = ''Project'',
       ChildResources = map (\<lambda>r. \<lparr>IDRef = ResID r\<rparr>) staff\<rparr> # staff"
    by (simp add: scenario_Resources staff_refs staff_def)
  have kind: "\<And>r. r \<in> set staff \<Longrightarrow> ResType r = ''Staff'' \<and> ChildResources r = []"
    unfolding staff_def by (rule staff_kind)
  then have noproj: "filter (\<lambda>r. ResType r = ''Project'') staff = []"
    by (auto simp add: filter_empty_conv)
  have names: "map Name staff = firstAppearance (filter (\<lambda>a. a \<noteq> []) (map Assignee tickets))"
    by (simp add: staff_def staff_names)
  have assign: "(Assignee (tickets ! i) = [] \<longrightarrow>
         Assignments (leafTasks tickets (fst (buildScenario s ord1 ord2 tickets epics c)) ! i) = []) \<and>
      (Assignee (tickets ! i) \<noteq> [] \<longrightarrow>
         (\<exists>j < length staff. Name (staff ! j) = Assignee (tickets ! i) \<and>
            Assignments (leafTasks tickets (fst (buildScenario s ord1 ord2 tickets epics c)) ! i) =
              [\<lparr>IDRef = ResID (staff ! j)\<rparr>]))"
    if i: "i < length tickets" for i
  proof -
    have a: "Assignments (leafTasks tickets (fst (buildScenario s ord1 ord2 tickets epics c)) ! i) =
        (if Assignee (tickets ! i) \<noteq> [] then
           (case am (Assignee (tickets ! i)) of Some rid \<Rightarrow> [\<lparr>IDRef = rid\<rparr>] | None \<Rightarrow> [])
         else [])"
      using i by (simp add: scenario_leafTasks leafTask_def am_def)
    show ?thesis
    proof (cases "Assignee (tickets ! i) = []")
      case True
      then show ?thesis by (simp add: a)
    next
      case False
      moreover have "Assignee (tickets ! i) \<in> Assignee ` set tickets"
        using i by simp
      ultimately obtain j where "j < length staff" "Name (staff ! j) = Assignee (tickets ! i)"
        "am (Assignee (tickets ! i)) = Some (ResID (staff ! j))"
        using staff_lookup [of "Assignee (tickets ! i)" tickets "c + 1"]
        unfolding staff_def am_def by blast
      with False show ?thesis
        by (auto simp add: a)
    qed
  qed
  show ?thesis
    unfolding res using kind names noproj assign
    by (simp add: distinct_firstAppearance)
qed

theorem resources_per_assignee_witness:
  "map Name (tl (Resources (fst (buildScenario plainSerializer [] [] testTickets Map.empty 0)))) =
     [''Alice Smith'', ''Bob Jones''] \<and>
   ResType (tl (Resources (fst (buildScenario plainSerializer [] [] testTickets Map.empty 0))) ! 0) =
     ''Staff'' \<and>
   Assignments (leafTasks testTickets
      (fst (buildScenario plainSerializer [] [] testTickets Map.empty 0)) ! 0) =
   Assignments (leafTasks testTickets
      (fst (buildScenario plainSerializer [] [] testTickets Map.empty 0)) ! 2) \<and>
   Assignments (leafTasks testTickets
      (fst (buildScenario plainSerializer [] [] testTickets Map.empty 0)) ! 3) = []"
proof -
  let ?R = "tl (Resources (fst (buildScenario plainSerializer [] [] testTickets Map.empty 0)))"
  let ?L = "leafTasks testTickets (fst (buildScenario plainSerializer [] [] testTickets Map.empty 0))"
  note inst = resources_per_assignee [of plainSerializer "[]" "[]" testTickets Map.empty 0]
  have len: "length testTickets = 4"
    by (simp add: testTickets_def)
  have a: "Assignee (testTickets ! 0) = ''Alice Smith''" "Assignee (testTickets ! 2) = ''Alice Smith''"
    "Assignee (testTickets ! 3) = []"
    by (simp_all add: testTickets_def mkTicket_def)
  note c_names = inst [THEN conjunct2, THEN conjunct2, THEN conjunct2, THEN conjunct2, THEN conjunct2, THEN conjunct2, THEN conjunct1]
  note c_dist = inst [THEN conjunct2, THEN conjunct2, THEN conjunct2, THEN conjunct2, THEN conjunct2, THEN conjunct2, THEN conjunct2, THEN conjunct1]
  note c_staff = inst [THEN conjunct2, THEN conjunct2, THEN conjunct2, THEN conjunct2, THEN conjunct2, THEN conjunct2, THEN conjunct2, THEN conjunct2, THEN conjunct1]
  note c_assign = inst [THEN conjunct2, THEN conjunct2, THEN conjunct2, THEN conjunct2, THEN conjunct2, THEN conjunct2, THEN conjunct2, THEN conjunct2, THEN conjunct2]
  have "firstAppearance (filter (\<lambda>a. a \<noteq> []) (map Assignee testTickets)) =
      [''Alice Smith'', ''Bob Jones'']"
    by (simp add: firstAppearance_def testTickets_def mkTicket_def)
  with c_names have names: "map Name ?R = [''Alice Smith'', ''Bob Jones'']"
    by (rule trans)
  have lenR: "length ?R = 2"
    using arg_cong [OF names, of length] by simp
  then have "?R ! 0 \<in> set ?R"
    by simp
  with c_staff have "ResType (?R ! 0) = ''Staff'' \<and> ChildResources (?R ! 0) = []"
    by (rule bspec)
  then have t0: "ResType (?R ! 0) = ''Staff''"
    by (rule conjunct1)
  have i0: "0 < length testTickets" and i2: "2 < length testTickets"
    and i3: "3 < length testTickets"
    by (simp_all add: len)
  note a0 = c_assign [rule_format, OF i0, THEN conjunct2, rule_format]
  note a2 = c_assign [rule_format, OF i2, THEN conjunct2, rule_format]
  note a3 = c_assign [rule_format, OF i3, THEN conjunct1, rule_format]
  have "Assignee (testTickets ! 0) \<noteq> []"
    by (simp add: a)
  from a0 [OF this] obtain j where j: "j < length ?R" "Name (?R ! j) = Assignee (testTickets ! 0)"
    "Assignments (?L ! 0) = [\<lparr>IDRef = ResID (?R ! j)\<rparr>]"
    by (elim exE conjE)
  have "Assignee (testTickets ! 2) \<noteq> []"
    by (simp add: a)
  from a2 [OF this] obtain k where k: "k < length ?R" "Name (?R ! k) = Assignee (testTickets ! 2)"
    "Assignments (?L ! 2) = [\<lparr>IDRef = ResID (?R ! k)\<rparr>]"
    by (elim exE conjE)
  have jl: "j < length (map Name ?R)" and kl: "k < length (map Name ?R)"
    using j(1) k(1) by (simp_all only: length_map)
  have "map Name ?R ! j = map Name ?R ! k"
    by (simp only: nth_map [OF j(1)] nth_map [OF k(1)] j(2) k(2) a)
  with nth_eq_iff_index_eq [OF c_dist jl kl] have "j = k"
    by (rule iffD1)
  with j(3) k(3) have same: "Assignments (?L ! 0) = Assignments (?L ! 2)"
    by simp
  have "Assignments (?L ! 3) = []"
    by (rule a3) (simp add: a)
  with names t0 same show ?thesis
    by (intro conjI)
qed

section \<open>No milestone without grouping (C10)\<close>

lemma donePrereqs_ungrouped:
  "\<not> GroupByEpic s \<Longrightarrow> donePrereqs s ord2 (foldl (createLeaf s am) (initBuild c) ts) = []"
  by (simp add: donePrereqs_def leaf_tasks initBuild_def)

lemma createDone_ungrouped:
  "\<not> GroupByEpic s \<Longrightarrow>
   createDone s ord2 (foldl (createLeaf s am) (initBuild c) ts) =
     foldl (createLeaf s am) (initBuild c) ts"
  by (simp add: createDone_def donePrereqs_ungrouped)

lemma createLeaf_MilestoneDone:
  "createLeaf (s\<lparr>MilestoneDone := b\<rparr>) am = createLeaf s am"
  by (intro ext) (simp add: createLeaf_def)

lemma phases_ungrouped:
  "\<not> GroupByEpic s \<Longrightarrow>
   buildPhases s ord1 ord2 ts am epics c = foldl (createLeaf s am) (initBuild c) ts"
  by (simp add: buildPhases_def createDone_ungrouped)

text \<open>
  C10. Without \<open>GroupByEpic\<close> no task of kind milestone is built: the prerequisite
  collection of the "Done" milestone is empty whatever the tickets are, and the whole
  result of the build is what it is with \<open>MilestoneDone\<close> switched off.
\<close>

theorem no_milestone_without_grouping:
  assumes "\<not> GroupByEpic s"
  shows "(\<forall>t \<in> set (Tasks (fst (buildScenario s ord1 ord2 tickets epics c))).
            Type t \<noteq> ''milestone'') \<and>
         donePrereqs s ord2 (foldl (createLeaf s am) (initBuild c0) tickets) = [] \<and>
         buildScenario s ord1 ord2 tickets epics c =
           buildScenario (s\<lparr>MilestoneDone := False\<rparr>) ord1 ord2 tickets epics c"
proof (intro conjI ballI)
  show "donePrereqs s ord2 (foldl (createLeaf s am) (initBuild c0) tickets) = []"
    using assms by (rule donePrereqs_ungrouped)
next
  fix t
  assume "t \<in> set (Tasks (fst (buildScenario s ord1 ord2 tickets epics c)))"
  then show "Type t \<noteq> ''milestone''"
    using assms
    by (auto simp add: scenario_Tasks build_result phases_ungrouped leaf_tasks initBuild_def
          leafTask_def)
next
  have "\<not> GroupByEpic (s\<lparr>MilestoneDone := False\<rparr>)"
    using assms by simp
  then have "buildPhases (s\<lparr>MilestoneDone := False\<rparr>) ord1 ord2 tickets a epics k =
      buildPhases s ord1 ord2 tickets a epics k" for a k
    using assms by (simp add: phases_ungrouped createLeaf_MilestoneDone)
  then show "buildScenario s ord1 ord2 tickets epics c =
      buildScenario (s\<lparr>MilestoneDone := False\<rparr>) ord1 ord2 tickets epics c"
    by (simp add: buildScenario_def buildTasksFromTickets_def)
qed

theorem no_milestone_without_grouping_witness:
  "\<not> GroupByEpic doneSerializer \<and> MilestoneDone doneSerializer \<and>
   map Type (Tasks (fst (buildScenario doneSerializer [] [] epicTickets testEpics 0))) =
     [''group'', [], [], [], []] \<and>
   buildScenario doneSerializer [] [] epicTickets testEpics 0 =
     buildScenario plainSerializer [] [] epicTickets testEpics 0"
proof -
  have g: "\<not> GroupByEpic doneSerializer"
    by (simp add: doneSerializer_def)
  have p: "doneSerializer\<lparr>MilestoneDone := False\<rparr> = plainSerializer"
    by (simp add: doneSerializer_def plainSerializer_def)
  note inst = no_milestone_without_grouping [OF g, of "[]" "[]" epicTickets testEpics 0
      Map.empty 0, unfolded p]
  have "map Type (Tasks (fst (buildScenario plainSerializer [] [] epicTickets testEpics 0))) =
     [''group'', [], [], [], []]"
    by code_simp
  with inst g show ?thesis
    by (simp add: doneSerializer_def)
qed

section \<open>The state before the Done milestone\<close>

lemma leaf_childRefs_init:
  "childRefsOf (epicToChildRefs (foldl (createLeaf s am) (initBuild c) ts)) k =
     map (\<lambda>i. \<lparr>IDRef = ''t'' @ fmt_d (c + 1 + of_nat i)\<rparr>)
         (filter (\<lambda>i. GroupByEpic s \<and> EpicLink (ts ! i) \<noteq> [] \<and> EpicLink (ts ! i) = k)
                 [0..<length ts])"
  using leaf_epicToChildRefs [of s am "initBuild c" ts k]
  by (simp add: initBuild_def childRefsOf_def)

lemma leaf_epic_dom_init:
  "dom (epicToChildRefs (foldl (createLeaf s am) (initBuild c) ts)) = set (epicKeys s ts)"
  using leaf_epic_dom [of s am "initBuild c" ts]
  by (auto simp add: initBuild_def epicKeys_def set_firstAppearance)

lemma rangeOrder_dom:
  "rangeOrder s ts ord \<Longrightarrow>
   set ord \<subseteq> dom (epicToChildRefs (foldl (createLeaf s am) (initBuild c) ts))"
  by (simp add: rangeOrder_def leaf_epic_dom_init)

lemma rangeOrder_ungrouped: "\<not> GroupByEpic s \<Longrightarrow> rangeOrder s ts ord \<Longrightarrow> ord = []"
  by (simp add: rangeOrder_def epicKeys_def)

text \<open>The state before the "Done" milestone, for a valid order of the first range loop.\<close>

lemma epic_state:
  fixes s :: Serializer and am :: "string \<rightharpoonup> string" and c :: counter
    and ts :: "Ticket list" and epics :: "string \<rightharpoonup> Ticket" and ord1 :: "string list"
  assumes "rangeOrder s ts ord1"
  defines "st1 \<equiv> foldl (createLeaf s am) (initBuild c) ts"
  defines "st2 \<equiv> (if GroupByEpic s then foldl (createEpic epics) st1 ord1 else st1)"
  shows "idCounter st2 = c + of_nat (length ts) + 2 * of_nat (length ord1)"
    and "tasks st2 =
      concat (map (\<lambda>(j, k).
                [groupTask epics k (childRefsOf (epicToChildRefs st1) k)
                   (''t'' @ fmt_d (c + of_nat (length ts) + 2 * of_nat j + 1)),
                 milestoneTask epics k
                   (''t'' @ fmt_d (c + of_nat (length ts) + 2 * of_nat j + 1))
                   (''t'' @ fmt_d (c + of_nat (length ts) + 2 * of_nat j + 2))])
              (enumerate 0 ord1))"
    and "refs st2 = refs st1 @
      concat (map (\<lambda>(j, k).
                [\<lparr>IDRef = ''t'' @ fmt_d (c + of_nat (length ts) + 2 * of_nat j + 1)\<rparr>,
                 \<lparr>IDRef = ''t'' @ fmt_d (c + of_nat (length ts) + 2 * of_nat j + 2)\<rparr>])
              (enumerate 0 ord1))"
    and "\<And>j. j < length ord1 \<Longrightarrow> epicMilestones st2 (ord1 ! j) =
      Some (milestoneTask epics (ord1 ! j)
              (''t'' @ fmt_d (c + of_nat (length ts) + 2 * of_nat j + 1))
              (''t'' @ fmt_d (c + of_nat (length ts) + 2 * of_nat j + 2)))"
proof -
  have sub: "set ord1 \<subseteq> dom (epicToChildRefs st1)"
    unfolding st1_def using assms(1) by (rule rangeOrder_dom)
  have dist: "distinct ord1"
    using assms(1) by (simp add: rangeOrder_def)
  have c1: "idCounter st1 = c + of_nat (length ts)"
    by (simp add: st1_def leaf_counter initBuild_def)
  have t1: "tasks st1 = []"
    by (simp add: st1_def leaf_tasks initBuild_def)
  show "idCounter st2 = c + of_nat (length ts) + 2 * of_nat (length ord1)"
  proof (cases "GroupByEpic s")
    case True
    then show ?thesis by (simp add: st2_def epic_counter [OF sub] c1)
  next
    case False
    then have "ord1 = []" using assms(1) by (rule rangeOrder_ungrouped)
    with False show ?thesis by (simp add: st2_def c1)
  qed
  show "tasks st2 =
      concat (map (\<lambda>(j, k).
                [groupTask epics k (childRefsOf (epicToChildRefs st1) k)
                   (''t'' @ fmt_d (c + of_nat (length ts) + 2 * of_nat j + 1)),
                 milestoneTask epics k
                   (''t'' @ fmt_d (c + of_nat (length ts) + 2 * of_nat j + 1))
                   (''t'' @ fmt_d (c + of_nat (length ts) + 2 * of_nat j + 2))])
              (enumerate 0 ord1))"
  proof (cases "GroupByEpic s")
    case True
    then show ?thesis by (simp add: st2_def epic_tasks [OF sub] c1 t1)
  next
    case False
    then have "ord1 = []" using assms(1) by (rule rangeOrder_ungrouped)
    with False show ?thesis by (simp add: st2_def t1)
  qed
  show "refs st2 = refs st1 @
      concat (map (\<lambda>(j, k).
                [\<lparr>IDRef = ''t'' @ fmt_d (c + of_nat (length ts) + 2 * of_nat j + 1)\<rparr>,
                 \<lparr>IDRef = ''t'' @ fmt_d (c + of_nat (length ts) + 2 * of_nat j + 2)\<rparr>])
              (enumerate 0 ord1))"
  proof (cases "GroupByEpic s")
    case True
    then show ?thesis by (simp add: st2_def epic_refs [OF sub] c1)
  next
    case False
    then have "ord1 = []" using assms(1) by (rule rangeOrder_ungrouped)
    with False show ?thesis by (simp add: st2_def)
  qed
  fix j
  assume j: "j < length ord1"
  show "epicMilestones st2 (ord1 ! j) =
      Some (milestoneTask epics (ord1 ! j)
              (''t'' @ fmt_d (c + of_nat (length ts) + 2 * of_nat j + 1))
              (''t'' @ fmt_d (c + of_nat (length ts) + 2 * of_nat j + 2)))"
  proof (cases "GroupByEpic s")
    case True
    then show ?thesis by (simp add: st2_def epic_milestones [OF sub dist j] c1)
  next
    case False
    then have "ord1 = []" using assms(1) by (rule rangeOrder_ungrouped)
    with False j show ?thesis by (simp add: st2_def)
  qed
qed

section \<open>The parts of the emitted task list\<close>

lemma createDone_fields:
  "tasks (createDone s ord2 st) =
     tasks st @ (if MilestoneDone s \<and> donePrereqs s ord2 st \<noteq> []
                 then [doneTask (donePrereqs s ord2 st) (''t'' @ fmt_d (idCounter st + 1))]
                 else [])"
  "refs (createDone s ord2 st) =
     refs st @ (if MilestoneDone s \<and> donePrereqs s ord2 st \<noteq> []
                then [\<lparr>IDRef = ''t'' @ fmt_d (idCounter st + 1)\<rparr>] else [])"
  "idCounter (createDone s ord2 st) =
     (if MilestoneDone s \<and> donePrereqs s ord2 st \<noteq> [] then idCounter st + 1 else idCounter st)"
  by (simp_all add: createDone_def Let_def)

lemma phases_epicState:
  "buildPhases s ord1 ord2 ts (assigneeToResourceID (staffOf c ts)) epics
     (staffCounter (staffOf c ts)) =
   createDone s ord2 (epicState s ord1 ts epics c)"
  by (simp add: buildPhases_def epicState_def leafState_def Let_def)

lemma epicState_tasks_length:
  "rangeOrder s ts ord1 \<Longrightarrow> length (tasks (epicState s ord1 ts epics c)) = 2 * length ord1"
proof -
  assume r: "rangeOrder s ts ord1"
  have "length (concat (map (\<lambda>(j, k). [g j k, h j k]) xs)) = 2 * length xs"
    for g h :: "nat \<Rightarrow> string \<Rightarrow> Task" and xs
    by (induction xs) auto
  then show ?thesis
    unfolding epicState_def leafState_def epic_state(2) [OF r] by simp
qed

lemma epicState_refs:
  "rangeOrder s ts ord1 \<Longrightarrow>
   refs (epicState s ord1 ts epics c) =
     refs (leafState s ts c) @ map (\<lambda>t. \<lparr>IDRef = ID t\<rparr>) (tasks (epicState s ord1 ts epics c))"
proof -
  assume r: "rangeOrder s ts ord1"
  show ?thesis
    unfolding epicState_def leafState_def epic_state(2) [OF r] epic_state(3) [OF r]
    by (simp add: map_concat comp_def split_def groupTask_def milestoneTask_def)
qed

text \<open>The emitted task list, part by part.\<close>

lemma scenario_parts:
  assumes r: "rangeOrder s ts ord1"
  shows "epicTaskList ord1 (fst (buildScenario s ord1 ord2 ts epics c)) =
           tasks (epicState s ord1 ts epics c)"
    and "doneTaskList ord1 ts (fst (buildScenario s ord1 ord2 ts epics c)) =
           (if MilestoneDone s \<and> donePrereqs s ord2 (epicState s ord1 ts epics c) \<noteq> []
            then [doneTask (donePrereqs s ord2 (epicState s ord1 ts epics c))
                    (''t'' @ fmt_d (idCounter (epicState s ord1 ts epics c) + 1))]
            else [])"
    and "Tasks (fst (buildScenario s ord1 ord2 ts epics c)) =
           hd (Tasks (fst (buildScenario s ord1 ord2 ts epics c))) #
           epicTaskList ord1 (fst (buildScenario s ord1 ord2 ts epics c)) @
           doneTaskList ord1 ts (fst (buildScenario s ord1 ord2 ts epics c)) @
           leafTasks ts (fst (buildScenario s ord1 ord2 ts epics c))"
    and "ChildTasks (hd (Tasks (fst (buildScenario s ord1 ord2 ts epics c)))) =
           refs (leafState s ts c) @
           map (\<lambda>t. \<lparr>IDRef = ID t\<rparr>)
               (epicTaskList ord1 (fst (buildScenario s ord1 ord2 ts epics c))) @
           map (\<lambda>t. \<lparr>IDRef = ID t\<rparr>)
               (doneTaskList ord1 ts (fst (buildScenario s ord1 ord2 ts epics c)))"
proof -
  define E where "E = tasks (epicState s ord1 ts epics c)"
  define D where "D = (if MilestoneDone s \<and> donePrereqs s ord2 (epicState s ord1 ts epics c) \<noteq> []
            then [doneTask (donePrereqs s ord2 (epicState s ord1 ts epics c))
                    (''t'' @ fmt_d (idCounter (epicState s ord1 ts epics c) + 1))]
            else [])"
  define L where "L = leafTasks ts (fst (buildScenario s ord1 ord2 ts epics c))"
  have lenE: "length E = 2 * length ord1"
    unfolding E_def using r by (rule epicState_tasks_length)
  have lenL: "length L = length ts"
    by (simp add: L_def scenario_leafTasks)
  have T: "tl (Tasks (fst (buildScenario s ord1 ord2 ts epics c))) = E @ D @ L"
    by (simp add: scenario_Tasks build_result staffOf_def [symmetric] phases_epicState
          createDone_fields E_def D_def L_def scenario_leafTasks)
  have ne: "Tasks (fst (buildScenario s ord1 ord2 ts epics c)) \<noteq> []"
    by (simp add: scenario_Tasks)
  then have T': "Tasks (fst (buildScenario s ord1 ord2 ts epics c)) =
      hd (Tasks (fst (buildScenario s ord1 ord2 ts epics c))) # E @ D @ L"
    using T by (metis list.collapse)
  show e: "epicTaskList ord1 (fst (buildScenario s ord1 ord2 ts epics c)) = E"
    by (simp add: epicTaskList_def T lenE)
  have "take (length (Tasks (fst (buildScenario s ord1 ord2 ts epics c))) - length ts)
          (Tasks (fst (buildScenario s ord1 ord2 ts epics c))) =
        hd (Tasks (fst (buildScenario s ord1 ord2 ts epics c))) # E @ D"
    by (subst (1 2) T') (simp add: lenL)
  then show d: "doneTaskList ord1 ts (fst (buildScenario s ord1 ord2 ts epics c)) = D"
    by (simp add: doneTaskList_def lenE)
  show "Tasks (fst (buildScenario s ord1 ord2 ts epics c)) =
           hd (Tasks (fst (buildScenario s ord1 ord2 ts epics c))) #
           epicTaskList ord1 (fst (buildScenario s ord1 ord2 ts epics c)) @
           doneTaskList ord1 ts (fst (buildScenario s ord1 ord2 ts epics c)) @
           leafTasks ts (fst (buildScenario s ord1 ord2 ts epics c))"
    unfolding e d using T' by (simp add: L_def)
  show "ChildTasks (hd (Tasks (fst (buildScenario s ord1 ord2 ts epics c)))) =
           refs (leafState s ts c) @
           map (\<lambda>t. \<lparr>IDRef = ID t\<rparr>)
               (epicTaskList ord1 (fst (buildScenario s ord1 ord2 ts epics c))) @
           map (\<lambda>t. \<lparr>IDRef = ID t\<rparr>)
               (doneTaskList ord1 ts (fst (buildScenario s ord1 ord2 ts epics c)))"
    unfolding e d
    by (simp add: scenario_Tasks build_result staffOf_def [symmetric] phases_epicState
          createDone_fields epicState_refs [OF r] E_def D_def doneTask_def)
qed

section \<open>The tasks of an epic\<close>

lemma leafState_refs:
  "refs (leafState s ts c) =
     map (\<lambda>i. \<lparr>IDRef = ID (leafTasks ts (fst (buildScenario s ord1 ord2 ts epics c)) ! i)\<rparr>)
         (filter (\<lambda>i. \<not> (GroupByEpic s \<and> EpicLink (ts ! i) \<noteq> [])) [0..<length ts])"
proof -
  have "map (\<lambda>i. \<lparr>IDRef = ID (leafTasks ts (fst (buildScenario s ord1 ord2 ts epics c)) ! i)\<rparr>)
         (filter (\<lambda>i. \<not> (GroupByEpic s \<and> EpicLink (ts ! i) \<noteq> [])) [0..<length ts]) =
        map (\<lambda>i. \<lparr>IDRef = ''t'' @ fmt_d (staffCounter (staffOf c ts) + 1 + of_nat i)\<rparr>)
         (filter (\<lambda>i. \<not> (GroupByEpic s \<and> EpicLink (ts ! i) \<noteq> [])) [0..<length ts])"
    by (rule map_cong) (simp_all add: scenario_leafTasks leafTask_def staffOf_def)
  then show ?thesis
    by (simp add: leafState_def leaf_refs initBuild_def)
qed

lemma leafState_childRefs:
  "GroupByEpic s \<Longrightarrow> k \<noteq> [] \<Longrightarrow>
   childRefsOf (epicToChildRefs (leafState s ts c)) k =
     map (\<lambda>i. \<lparr>IDRef = ID (leafTasks ts (fst (buildScenario s ord1 ord2 ts epics c)) ! i)\<rparr>)
         (filter (\<lambda>i. EpicLink (ts ! i) = k) [0..<length ts])"
proof -
  assume g: "GroupByEpic s" and k: "k \<noteq> []"
  have "map (\<lambda>i. \<lparr>IDRef = ID (leafTasks ts (fst (buildScenario s ord1 ord2 ts epics c)) ! i)\<rparr>)
         (filter (\<lambda>i. EpicLink (ts ! i) = k) [0..<length ts]) =
        map (\<lambda>i. \<lparr>IDRef = ''t'' @ fmt_d (staffCounter (staffOf c ts) + 1 + of_nat i)\<rparr>)
         (filter (\<lambda>i. EpicLink (ts ! i) = k) [0..<length ts])"
    by (rule map_cong) (simp_all add: scenario_leafTasks leafTask_def staffOf_def)
  moreover have "filter (\<lambda>i. GroupByEpic s \<and> EpicLink (ts ! i) \<noteq> [] \<and> EpicLink (ts ! i) = k)
        [0..<length ts] = filter (\<lambda>i. EpicLink (ts ! i) = k) [0..<length ts]"
    using g k by (intro filter_cong) auto
  ultimately show ?thesis
    by (simp add: leafState_def leaf_childRefs_init)
qed

lemma rangeOrder_key:
  "rangeOrder s ts ord \<Longrightarrow> j < length ord \<Longrightarrow>
   GroupByEpic s \<and> ord ! j \<noteq> [] \<and> ord ! j \<in> EpicLink ` set ts"
proof -
  assume r: "rangeOrder s ts ord" and j: "j < length ord"
  then have "ord ! j \<in> set (epicKeys s ts)"
    by (metis nth_mem rangeOrder_def)
  then show ?thesis
    by (auto simp add: epicKeys_def set_firstAppearance split: if_splits)
qed

text \<open>The two tasks of the \<open>j\<close>-th key visited by the first range loop.\<close>

lemma epic_pair:
  assumes r: "rangeOrder s ts ord1" and j: "j < length ord1"
  shows "epicTaskList ord1 (fst (buildScenario s ord1 ord2 ts epics c)) ! (2 * j) =
           groupTask epics (ord1 ! j)
             (map (\<lambda>i. \<lparr>IDRef = ID (leafTasks ts (fst (buildScenario s ord1 ord2 ts epics c)) ! i)\<rparr>)
                  (filter (\<lambda>i. EpicLink (ts ! i) = ord1 ! j) [0..<length ts]))
             (''t'' @ fmt_d (staffCounter (staffOf c ts) + of_nat (length ts) + 2 * of_nat j + 1))"
    and "epicTaskList ord1 (fst (buildScenario s ord1 ord2 ts epics c)) ! (2 * j + 1) =
           milestoneTask epics (ord1 ! j)
             (''t'' @ fmt_d (staffCounter (staffOf c ts) + of_nat (length ts) + 2 * of_nat j + 1))
             (''t'' @ fmt_d (staffCounter (staffOf c ts) + of_nat (length ts) + 2 * of_nat j + 2))"
proof -
  let ?g = "\<lambda>x. groupTask epics (snd x) (childRefsOf (epicToChildRefs (leafState s ts c)) (snd x))
              (''t'' @ fmt_d (staffCounter (staffOf c ts) + of_nat (length ts) + 2 * of_nat (fst x) + 1))"
  let ?h = "\<lambda>x. milestoneTask epics (snd x)
              (''t'' @ fmt_d (staffCounter (staffOf c ts) + of_nat (length ts) + 2 * of_nat (fst x) + 1))
              (''t'' @ fmt_d (staffCounter (staffOf c ts) + of_nat (length ts) + 2 * of_nat (fst x) + 2))"
  have E: "epicTaskList ord1 (fst (buildScenario s ord1 ord2 ts epics c)) =
      concat (map (\<lambda>x. [?g x, ?h x]) (enumerate 0 ord1))"
    unfolding scenario_parts(1) [OF r] epicState_def leafState_def epic_state(2) [OF r]
    by (simp add: split_def)
  have je: "j < length (enumerate 0 ord1)"
    using j by simp
  have nth: "enumerate 0 ord1 ! j = (j, ord1 ! j)"
    using j by (simp add: nth_enumerate_eq)
  from rangeOrder_key [OF r j] have k: "GroupByEpic s" "ord1 ! j \<noteq> []"
    by simp_all
  show "epicTaskList ord1 (fst (buildScenario s ord1 ord2 ts epics c)) ! (2 * j) =
           groupTask epics (ord1 ! j)
             (map (\<lambda>i. \<lparr>IDRef = ID (leafTasks ts (fst (buildScenario s ord1 ord2 ts epics c)) ! i)\<rparr>)
                  (filter (\<lambda>i. EpicLink (ts ! i) = ord1 ! j) [0..<length ts]))
             (''t'' @ fmt_d (staffCounter (staffOf c ts) + of_nat (length ts) + 2 * of_nat j + 1))"
    apply (subst E)
    apply (rule trans [OF concat_pairs_nth [OF je, THEN conjunct1]])
    apply (simp add: nth leafState_childRefs [where ?ord1.0 = ord1 and ?ord2.0 = ord2 and epics = epics, OF k])
    done
  show "epicTaskList ord1 (fst (buildScenario s ord1 ord2 ts epics c)) ! (2 * j + 1) =
           milestoneTask epics (ord1 ! j)
             (''t'' @ fmt_d (staffCounter (staffOf c ts) + of_nat (length ts) + 2 * of_nat j + 1))
             (''t'' @ fmt_d (staffCounter (staffOf c ts) + of_nat (length ts) + 2 * of_nat j + 2))"
    apply (subst E)
    apply (rule trans [OF concat_pairs_nth [OF je, THEN conjunct2]])
    apply (simp add: nth)
    done
qed

lemma epicTaskList_length:
  "rangeOrder s ts ord1 \<Longrightarrow>
   length (epicTaskList ord1 (fst (buildScenario s ord1 ord2 ts epics c))) = 2 * length ord1"
  by (simp add: scenario_parts(1) epicState_tasks_length)

section \<open>The order of the task list (C2)\<close>




section \<open>Epic materialization (C1)\<close>

text \<open>
  C1 (as amended). With \<open>ord1\<close> the order in which the range loop visits the epic keys
  (each key with a member ticket once), the tasks of epic materialization are, for the
  \<open>j\<close>-th key visited, a group task (title the epic's summary, or the key when the epic
  is not in the epic map; kind group; children the leaf tasks of the member tickets in
  input order; annotation key, link, status) immediately followed by a milestone task
  titled "<summary> Done" whose only prerequisite is that group task; all of them are
  top-level references, in this order. The order is that of the map iteration, not that
  of first encounter.
\<close>

theorem epic_materialization:
  assumes "rangeOrder s tickets ord1"
  shows
   "length (epicTaskList ord1 (fst (buildScenario s ord1 ord2 tickets epics c))) =
      2 * length ord1 \<and>
    (\<forall>j < length ord1.
       Type (epicTaskList ord1 (fst (buildScenario s ord1 ord2 tickets epics c)) ! (2 * j)) =
         ''group'' \<and>
       Title (epicTaskList ord1 (fst (buildScenario s ord1 ord2 tickets epics c)) ! (2 * j)) =
         (case epics (ord1 ! j) of Some e \<Rightarrow> Summary e | None \<Rightarrow> ord1 ! j) \<and>
       ChildTasks (epicTaskList ord1 (fst (buildScenario s ord1 ord2 tickets epics c)) ! (2 * j)) =
         map (\<lambda>i. \<lparr>IDRef = ID (leafTasks tickets
                                  (fst (buildScenario s ord1 ord2 tickets epics c)) ! i)\<rparr>)
             (filter (\<lambda>i. EpicLink (tickets ! i) = ord1 ! j) [0..<length tickets]) \<and>
       UserData (epicTaskList ord1 (fst (buildScenario s ord1 ord2 tickets epics c)) ! (2 * j)) =
         Some [(''Jira Key'', ord1 ! j),
               (''Jira Link'', case epics (ord1 ! j) of Some e \<Rightarrow> Link e | None \<Rightarrow> []),
               (''Jira Status'', case epics (ord1 ! j) of Some e \<Rightarrow> Status e | None \<Rightarrow> [])] \<and>
       Type (epicTaskList ord1 (fst (buildScenario s ord1 ord2 tickets epics c)) ! (2 * j + 1)) =
         ''milestone'' \<and>
       Title (epicTaskList ord1 (fst (buildScenario s ord1 ord2 tickets epics c)) ! (2 * j + 1)) =
         (case epics (ord1 ! j) of Some e \<Rightarrow> Summary e | None \<Rightarrow> ord1 ! j) @ '' Done'' \<and>
       Prerequisites
           (epicTaskList ord1 (fst (buildScenario s ord1 ord2 tickets epics c)) ! (2 * j + 1)) =
         [\<lparr>PrereqIDRef =
             ID (epicTaskList ord1 (fst (buildScenario s ord1 ord2 tickets epics c)) ! (2 * j)),
           Kind = []\<rparr>]) \<and>
    ChildTasks (hd (Tasks (fst (buildScenario s ord1 ord2 tickets epics c)))) =
      map (\<lambda>i. \<lparr>IDRef = ID (leafTasks tickets
                               (fst (buildScenario s ord1 ord2 tickets epics c)) ! i)\<rparr>)
          (filter (\<lambda>i. \<not> (GroupByEpic s \<and> EpicLink (tickets ! i) \<noteq> [])) [0..<length tickets]) @
      map (\<lambda>t. \<lparr>IDRef = ID t\<rparr>)
          (epicTaskList ord1 (fst (buildScenario s ord1 ord2 tickets epics c))) @
      map (\<lambda>t. \<lparr>IDRef = ID t\<rparr>)
          (doneTaskList ord1 tickets (fst (buildScenario s ord1 ord2 tickets epics c)))"
proof (intro conjI allI impI)
  show "length (epicTaskList ord1 (fst (buildScenario s ord1 ord2 tickets epics c))) =
      2 * length ord1"
    using assms by (rule epicTaskList_length)
  show "ChildTasks (hd (Tasks (fst (buildScenario s ord1 ord2 tickets epics c)))) =
      map (\<lambda>i. \<lparr>IDRef = ID (leafTasks tickets
                               (fst (buildScenario s ord1 ord2 tickets epics c)) ! i)\<rparr>)
          (filter (\<lambda>i. \<not> (GroupByEpic s \<and> EpicLink (tickets ! i) \<noteq> [])) [0..<length tickets]) @
      map (\<lambda>t. \<lparr>IDRef = ID t\<rparr>)
          (epicTaskList ord1 (fst (buildScenario s ord1 ord2 tickets epics c))) @
      map (\<lambda>t. \<lparr>IDRef = ID t\<rparr>)
          (doneTaskList ord1 tickets (fst (buildScenario s ord1 ord2 tickets epics c)))"
    unfolding scenario_parts(4) [OF assms]
      leafState_refs [where ?ord1.0 = ord1 and ?ord2.0 = ord2 and epics = epics]
    by (rule refl)
next
  fix j
  assume j: "j < length ord1"
  note g = epic_pair(1) [OF assms j, of ord2 epics c]
  note m = epic_pair(2) [OF assms j, of ord2 epics c]
  show "Type (epicTaskList ord1 (fst (buildScenario s ord1 ord2 tickets epics c)) ! (2 * j)) =
         ''group''"
    by (simp only: g) (simp add: groupTask_def)
  show "Title (epicTaskList ord1 (fst (buildScenario s ord1 ord2 tickets epics c)) ! (2 * j)) =
         (case epics (ord1 ! j) of Some e \<Rightarrow> Summary e | None \<Rightarrow> ord1 ! j)"
    by (simp only: g) (simp add: groupTask_def epicSummaryOf_def)
  show "ChildTasks (epicTaskList ord1 (fst (buildScenario s ord1 ord2 tickets epics c)) ! (2 * j)) =
         map (\<lambda>i. \<lparr>IDRef = ID (leafTasks tickets
                                  (fst (buildScenario s ord1 ord2 tickets epics c)) ! i)\<rparr>)
             (filter (\<lambda>i. EpicLink (tickets ! i) = ord1 ! j) [0..<length tickets])"
    by (subst g) (simp add: groupTask_def)
  show "UserData (epicTaskList ord1 (fst (buildScenario s ord1 ord2 tickets epics c)) ! (2 * j)) =
         Some [(''Jira Key'', ord1 ! j),
               (''Jira Link'', case epics (ord1 ! j) of Some e \<Rightarrow> Link e | None \<Rightarrow> []),
               (''Jira Status'', case epics (ord1 ! j) of Some e \<Rightarrow> Status e | None \<Rightarrow> [])]"
    by (simp only: g) (simp add: groupTask_def epicLinkOf_def epicStatusOf_def)
  show "Type (epicTaskList ord1 (fst (buildScenario s ord1 ord2 tickets epics c)) ! (2 * j + 1)) =
         ''milestone''"
    by (simp only: m) (simp add: milestoneTask_def)
  show "Title (epicTaskList ord1 (fst (buildScenario s ord1 ord2 tickets epics c)) ! (2 * j + 1)) =
         (case epics (ord1 ! j) of Some e \<Rightarrow> Summary e | None \<Rightarrow> ord1 ! j) @ '' Done''"
    by (simp only: m) (simp add: milestoneTask_def epicSummaryOf_def)
  show "Prerequisites
           (epicTaskList ord1 (fst (buildScenario s ord1 ord2 tickets epics c)) ! (2 * j + 1)) =
         [\<lparr>PrereqIDRef =
             ID (epicTaskList ord1 (fst (buildScenario s ord1 ord2 tickets epics c)) ! (2 * j)),
           Kind = []\<rparr>]"
    by (simp only: g m) (simp add: milestoneTask_def groupTask_def)
qed

text \<open>
  C1 as stated fails in the order: the tickets bring up EPIC-1 before EPIC-2, and a range
  loop that visits EPIC-2 first puts its group task and milestone first.
\<close>

theorem epic_order_counterexample:
  "rangeOrder epicSerializer epicTickets [''EPIC-2'', ''EPIC-1''] \<and>
   epicKeys epicSerializer epicTickets = [''EPIC-1'', ''EPIC-2''] \<and>
   map Title (epicTaskList [''EPIC-2'', ''EPIC-1'']
     (fst (buildScenario epicSerializer [''EPIC-2'', ''EPIC-1''] [''EPIC-2'', ''EPIC-1'']
             epicTickets testEpics 0))) =
     [''EPIC-2'', ''EPIC-2 Done'', ''Big Project Epic'', ''Big Project Epic Done'']"
  by code_simp

theorem epic_materialization_witness:
  "rangeOrder epicSerializer epicTickets [''EPIC-2'', ''EPIC-1''] \<and>
   Title (epicTaskList [''EPIC-2'', ''EPIC-1'']
     (fst (buildScenario epicSerializer [''EPIC-2'', ''EPIC-1''] [''EPIC-1'', ''EPIC-2'']
             epicTickets testEpics 0)) ! 2) = ''Big Project Epic'' \<and>
   ChildTasks (epicTaskList [''EPIC-2'', ''EPIC-1'']
     (fst (buildScenario epicSerializer [''EPIC-2'', ''EPIC-1''] [''EPIC-1'', ''EPIC-2'']
             epicTickets testEpics 0)) ! 2) =
     [\<lparr>IDRef = ID (leafTasks epicTickets
         (fst (buildScenario epicSerializer [''EPIC-2'', ''EPIC-1''] [''EPIC-1'', ''EPIC-2'']
             epicTickets testEpics 0)) ! 0)\<rparr>,
      \<lparr>IDRef = ID (leafTasks epicTickets
         (fst (buildScenario epicSerializer [''EPIC-2'', ''EPIC-1''] [''EPIC-1'', ''EPIC-2'']
             epicTickets testEpics 0)) ! 3)\<rparr>] \<and>
   Title (epicTaskList [''EPIC-2'', ''EPIC-1'']
     (fst (buildScenario epicSerializer [''EPIC-2'', ''EPIC-1''] [''EPIC-1'', ''EPIC-2'']
             epicTickets testEpics 0)) ! 3) = ''Big Project Epic Done'' \<and>
   Prerequisites (epicTaskList [''EPIC-2'', ''EPIC-1'']
     (fst (buildScenario epicSerializer [''EPIC-2'', ''EPIC-1''] [''EPIC-1'', ''EPIC-2'']
             epicTickets testEpics 0)) ! 3) =
     [\<lparr>PrereqIDRef = ID (epicTaskList [''EPIC-2'', ''EPIC-1'']
         (fst (buildScenario epicSerializer [''EPIC-2'', ''EPIC-1''] [''EPIC-1'', ''EPIC-2'']
             epicTickets testEpics 0)) ! 2), Kind = []\<rparr>]"
proof -
  have r: "rangeOrder epicSerializer epicTickets [''EPIC-2'', ''EPIC-1'']"
    by code_simp
  have j: "1 < length [''EPIC-2'', ''EPIC-1'']"
    by simp
  note inst = epic_materialization [OF r, of "[''EPIC-1'', ''EPIC-2'']" testEpics 0,
      THEN conjunct2, THEN conjunct1, rule_format, OF j]
  have members: "filter (\<lambda>i. EpicLink (epicTickets ! i) = ''EPIC-1'') [0..<length epicTickets] =
      [0, 3]"
    by code_simp
  have epic: "testEpics ''EPIC-1'' = Some (mkTicket ''EPIC-1'' ''Big Project Epic'' [] 0 [] [])"
    by (simp add: testEpics_def)
  have summary: "Summary (mkTicket ''EPIC-1'' ''Big Project Epic'' [] 0 [] []) = ''Big Project Epic''"
    by (simp add: mkTicket_def)
  from inst r show ?thesis
    by (simp add: members epic summary)
qed

section \<open>The prerequisites of the Done milestone\<close>

lemma concat_singletons:
  "(\<And>x. x \<in> set xs \<Longrightarrow> f x = [g x]) \<Longrightarrow> concat (map f xs) = map g xs"
  by (induction xs) simp_all

lemma epicState_milestone:
  assumes r: "rangeOrder s ts ord1" and i: "i < length ord1"
  shows "epicMilestones (epicState s ord1 ts epics c) (ord1 ! i) =
           Some (epicTaskList ord1 (fst (buildScenario s ord1 ord2 ts epics c)) ! (2 * i + 1))"
  unfolding epic_pair(2) [OF r i] epicState_def leafState_def
  using epic_state(4) [OF r i] by simp

lemma donePrereqs_grouped:
  assumes r1: "rangeOrder s ts ord1" and r2: "rangeOrder s ts ord2"
  shows "length (donePrereqs s ord2 (epicState s ord1 ts epics c)) = length ord2"
    and "\<And>j. j < length ord2 \<Longrightarrow>
           \<exists>i < length ord1. ord1 ! i = ord2 ! j \<and>
             donePrereqs s ord2 (epicState s ord1 ts epics c) ! j =
               \<lparr>PrereqIDRef =
                  ID (epicTaskList ord1 (fst (buildScenario s ord1 ord2 ts epics c)) ! (2 * i + 1)),
                Kind = []\<rparr>"
proof -
  let ?E = "epicTaskList ord1 (fst (buildScenario s ord1 ord2 ts epics c))"
  let ?st = "epicState s ord1 ts epics c"
  have same: "set ord2 = set ord1"
    using r1 r2 by (simp add: rangeOrder_def)
  show len: "length (donePrereqs s ord2 ?st) = length ord2"
  proof (cases "GroupByEpic s")
    case False
    then have "ord2 = []" using r2 by (rule rangeOrder_ungrouped)
    with False show ?thesis
      by (simp add: donePrereqs_def epicState_def leafState_def leaf_tasks initBuild_def)
  next
    case True
    have "\<exists>m. epicMilestones ?st k = Some m" if "k \<in> set ord2" for k
    proof -
      from that same obtain i where "i < length ord1" "ord1 ! i = k"
        by (auto simp add: in_set_conv_nth)
      with epicState_milestone [OF r1, of i epics c ord2] show ?thesis
        by auto
    qed
    then have "(case epicMilestones ?st k of None \<Rightarrow> []
                | Some m \<Rightarrow> [\<lparr>PrereqIDRef = ID m, Kind = []\<rparr>]) =
               [\<lparr>PrereqIDRef = ID (the (epicMilestones ?st k)), Kind = []\<rparr>]"
      if "k \<in> set ord2" for k
      using that by fastforce
    then have "concat (map (\<lambda>k. case epicMilestones ?st k of None \<Rightarrow> []
                | Some m \<Rightarrow> [\<lparr>PrereqIDRef = ID m, Kind = []\<rparr>]) ord2) =
               map (\<lambda>k. \<lparr>PrereqIDRef = ID (the (epicMilestones ?st k)), Kind = []\<rparr>) ord2"
      by (rule concat_singletons)
    with True show ?thesis
      by (simp add: donePrereqs_def)
  qed
  fix j
  assume j: "j < length ord2"
  then have g: "GroupByEpic s"
    using rangeOrder_key [OF r2 j] by simp
  from j same obtain i where i: "i < length ord1" "ord1 ! i = ord2 ! j"
    by (metis in_set_conv_nth nth_mem)
  have sing: "(case epicMilestones ?st k of None \<Rightarrow> []
                | Some m \<Rightarrow> [\<lparr>PrereqIDRef = ID m, Kind = []\<rparr>]) =
               [\<lparr>PrereqIDRef = ID (the (epicMilestones ?st k)), Kind = []\<rparr>]"
    if "k \<in> set ord2" for k
  proof -
    from that same obtain i' where "i' < length ord1" "ord1 ! i' = k"
      by (auto simp add: in_set_conv_nth)
    with epicState_milestone [OF r1, of i' epics c ord2] show ?thesis
      by auto
  qed
  have "donePrereqs s ord2 ?st =
      map (\<lambda>k. \<lparr>PrereqIDRef = ID (the (epicMilestones ?st k)), Kind = []\<rparr>) ord2"
    using g concat_singletons [of ord2 _ "\<lambda>k. \<lparr>PrereqIDRef = ID (the (epicMilestones ?st k)), Kind = []\<rparr>", OF sing]
    by (simp add: donePrereqs_def)
  then have "donePrereqs s ord2 ?st ! j =
      \<lparr>PrereqIDRef = ID (the (epicMilestones ?st (ord2 ! j))), Kind = []\<rparr>"
    using j by simp
  with epicState_milestone [OF r1 i(1), of epics c ord2] i
  show "\<exists>i < length ord1. ord1 ! i = ord2 ! j \<and>
             donePrereqs s ord2 ?st ! j = \<lparr>PrereqIDRef = ID (?E ! (2 * i + 1)), Kind = []\<rparr>"
    by auto
qed

lemma epic_member:
  assumes r: "rangeOrder s ts ord1"
    and t: "t \<in> set (epicTaskList ord1 (fst (buildScenario s ord1 ord2 ts epics c)))"
  shows "\<exists>j < length ord1.
           t = epicTaskList ord1 (fst (buildScenario s ord1 ord2 ts epics c)) ! (2 * j) \<or>
           t = epicTaskList ord1 (fst (buildScenario s ord1 ord2 ts epics c)) ! (2 * j + 1)"
proof -
  let ?E = "epicTaskList ord1 (fst (buildScenario s ord1 ord2 ts epics c))"
  from t obtain n where n: "n < length ?E" "t = ?E ! n"
    by (auto simp add: in_set_conv_nth)
  have len: "length ?E = 2 * length ord1"
    using r by (rule epicTaskList_length)
  have "n = 2 * (n div 2) \<or> n = 2 * (n div 2) + 1"
    by presburger
  moreover have "n div 2 < length ord1"
    using n(1) len by simp
  ultimately show ?thesis
    using n(2) by metis
qed

lemma epic_not_done:
  assumes r: "rangeOrder s ts ord1"
    and t: "t \<in> set (epicTaskList ord1 (fst (buildScenario s ord1 ord2 ts epics c)))"
  shows "\<not> (Type t = ''milestone'' \<and> Title t = ''Done'')"
proof -
  from epic_member [OF r t] obtain j where j: "j < length ord1"
    "t = epicTaskList ord1 (fst (buildScenario s ord1 ord2 ts epics c)) ! (2 * j) \<or>
     t = epicTaskList ord1 (fst (buildScenario s ord1 ord2 ts epics c)) ! (2 * j + 1)"
    by blast
  have "length (x @ '' Done'') \<noteq> length ''Done''" for x :: string
    by simp
  then have "x @ '' Done'' \<noteq> ''Done''" for x :: string
    by metis
  with j(2) show ?thesis
    unfolding epic_pair [OF r j(1)]
    by (auto simp add: groupTask_def milestoneTask_def)
qed

section \<open>The Done milestone (C4)\<close>

text \<open>
  C4 (as amended). With \<open>ord1\<close> and \<open>ord2\<close> the orders of the range loops over
  \<open>epicToChildRefs\<close> and \<open>epicMilestones\<close>: when \<open>MilestoneDone\<close> is set and an epic
  was materialized, exactly one milestone task titled "Done" is created, and its
  prerequisites are the epic milestones, one per epic, in the order \<open>ord2\<close> of the second
  range loop, which need not be the order of their creation; in every other case (no
  \<open>MilestoneDone\<close>, no \<open>GroupByEpic\<close>, or no ticket with an epic) the prerequisite
  collection is empty and no "Done" task is created.
\<close>

theorem done_milestone:
  assumes "rangeOrder s tickets ord1" and "rangeOrder s tickets ord2"
  shows
   "(MilestoneDone s \<and> ord1 \<noteq> [] \<longrightarrow>
       length (doneTaskList ord1 tickets (fst (buildScenario s ord1 ord2 tickets epics c))) = 1 \<and>
       Title (hd (doneTaskList ord1 tickets (fst (buildScenario s ord1 ord2 tickets epics c)))) =
         ''Done'' \<and>
       Type (hd (doneTaskList ord1 tickets (fst (buildScenario s ord1 ord2 tickets epics c)))) =
         ''milestone'' \<and>
       length (Prerequisites
          (hd (doneTaskList ord1 tickets (fst (buildScenario s ord1 ord2 tickets epics c))))) =
         length ord2 \<and>
       (\<forall>j < length ord2. \<exists>i < length ord1. ord1 ! i = ord2 ! j \<and>
          Prerequisites
            (hd (doneTaskList ord1 tickets (fst (buildScenario s ord1 ord2 tickets epics c)))) ! j =
          \<lparr>PrereqIDRef =
             ID (epicTaskList ord1 (fst (buildScenario s ord1 ord2 tickets epics c)) ! (2 * i + 1)),
           Kind = []\<rparr>)) \<and>
    (\<not> (MilestoneDone s \<and> ord1 \<noteq> []) \<longrightarrow>
       doneTaskList ord1 tickets (fst (buildScenario s ord1 ord2 tickets epics c)) = []) \<and>
    filter (\<lambda>t. Type t = ''milestone'' \<and> Title t = ''Done'')
           (Tasks (fst (buildScenario s ord1 ord2 tickets epics c))) =
      doneTaskList ord1 tickets (fst (buildScenario s ord1 ord2 tickets epics c))"
proof -
  note r1 = assms(1) and r2 = assms(2)
  let ?scn = "fst (buildScenario s ord1 ord2 tickets epics c)"
  let ?st = "epicState s ord1 tickets epics c"
  let ?P = "donePrereqs s ord2 ?st"
  have same: "length ord2 = length ord1"
    using r1 r2 by (metis distinct_card rangeOrder_def)
  have lenP: "length ?P = length ord2"
    using r1 r2 by (rule donePrereqs_grouped(1))
  then have ne: "(?P \<noteq> []) = (ord1 \<noteq> [])"
    using same by (metis length_0_conv)
  have D: "doneTaskList ord1 tickets ?scn =
      (if MilestoneDone s \<and> ord1 \<noteq> []
       then [doneTask ?P (''t'' @ fmt_d (idCounter ?st + 1))] else [])"
    by (simp add: scenario_parts(2) [OF r1] ne)
  have yes: "MilestoneDone s \<and> ord1 \<noteq> [] \<longrightarrow>
       length (doneTaskList ord1 tickets ?scn) = 1 \<and>
       Title (hd (doneTaskList ord1 tickets ?scn)) = ''Done'' \<and>
       Type (hd (doneTaskList ord1 tickets ?scn)) = ''milestone'' \<and>
       length (Prerequisites (hd (doneTaskList ord1 tickets ?scn))) = length ord2 \<and>
       (\<forall>j < length ord2. \<exists>i < length ord1. ord1 ! i = ord2 ! j \<and>
          Prerequisites (hd (doneTaskList ord1 tickets ?scn)) ! j =
          \<lparr>PrereqIDRef = ID (epicTaskList ord1 ?scn ! (2 * i + 1)), Kind = []\<rparr>)"
  proof (intro impI)
    assume a: "MilestoneDone s \<and> ord1 \<noteq> []"
    then have hd: "Prerequisites (hd (doneTaskList ord1 tickets ?scn)) = ?P"
      by (simp add: D doneTask_def)
    from a show "length (doneTaskList ord1 tickets ?scn) = 1 \<and>
       Title (hd (doneTaskList ord1 tickets ?scn)) = ''Done'' \<and>
       Type (hd (doneTaskList ord1 tickets ?scn)) = ''milestone'' \<and>
       length (Prerequisites (hd (doneTaskList ord1 tickets ?scn))) = length ord2 \<and>
       (\<forall>j < length ord2. \<exists>i < length ord1. ord1 ! i = ord2 ! j \<and>
          Prerequisites (hd (doneTaskList ord1 tickets ?scn)) ! j =
          \<lparr>PrereqIDRef = ID (epicTaskList ord1 ?scn ! (2 * i + 1)), Kind = []\<rparr>)"
      unfolding hd using lenP donePrereqs_grouped(2) [OF r1 r2, of _ epics c]
      by (simp add: D doneTask_def)
  qed
  have no: "\<not> (MilestoneDone s \<and> ord1 \<noteq> []) \<longrightarrow> doneTaskList ord1 tickets ?scn = []"
    by (simp add: D)
  have root: "\<not> (Type (hd (Tasks ?scn)) = ''milestone'' \<and> Title (hd (Tasks ?scn)) = ''Done'')"
    by (simp add: scenario_Tasks)
  have E: "filter (\<lambda>t. Type t = ''milestone'' \<and> Title t = ''Done'') (epicTaskList ord1 ?scn) = []"
    using epic_not_done [OF r1] by (simp add: filter_empty_conv)
  have L: "filter (\<lambda>t. Type t = ''milestone'' \<and> Title t = ''Done'') (leafTasks tickets ?scn) = []"
    by (auto simp add: filter_empty_conv scenario_leafTasks leafTask_def)
  have Df: "filter (\<lambda>t. Type t = ''milestone'' \<and> Title t = ''Done'') (doneTaskList ord1 tickets ?scn) =
      doneTaskList ord1 tickets ?scn"
    by (simp add: D doneTask_def)
  have "filter (\<lambda>t. Type t = ''milestone'' \<and> Title t = ''Done'') (Tasks ?scn) =
      doneTaskList ord1 tickets ?scn"
    by (subst scenario_parts(3) [OF r1]) (simp add: root E L Df)
  with yes no show ?thesis
    by (intro conjI)
qed

text \<open>
  C4 as stated fails in the order of the prerequisites: the milestones are created for
  EPIC-1 (\<open>t7\<close>) and then EPIC-2 (\<open>t9\<close>), and a second range loop that visits EPIC-2
  first lists \<open>t9\<close> before \<open>t7\<close>.
\<close>

theorem done_prerequisites_counterexample:
  "rangeOrder epicSerializer epicTickets [''EPIC-1'', ''EPIC-2''] \<and>
   rangeOrder epicSerializer epicTickets [''EPIC-2'', ''EPIC-1''] \<and>
   map ID (filter (\<lambda>t. Type t = ''milestone'')
     (epicTaskList [''EPIC-1'', ''EPIC-2'']
        (fst (buildScenario epicSerializer [''EPIC-1'', ''EPIC-2''] [''EPIC-2'', ''EPIC-1'']
                epicTickets testEpics 0)))) = [''t7'', ''t9''] \<and>
   map PrereqIDRef (Prerequisites (hd
     (doneTaskList [''EPIC-1'', ''EPIC-2''] epicTickets
        (fst (buildScenario epicSerializer [''EPIC-1'', ''EPIC-2''] [''EPIC-2'', ''EPIC-1'']
                epicTickets testEpics 0))))) = [''t9'', ''t7'']"
  by code_simp

theorem done_milestone_witness:
  "rangeOrder epicSerializer epicTickets [''EPIC-1'', ''EPIC-2''] \<and>
   rangeOrder epicSerializer epicTickets [''EPIC-2'', ''EPIC-1''] \<and>
   MilestoneDone epicSerializer \<and>
   length (doneTaskList [''EPIC-1'', ''EPIC-2''] epicTickets
     (fst (buildScenario epicSerializer [''EPIC-1'', ''EPIC-2''] [''EPIC-2'', ''EPIC-1'']
             epicTickets testEpics 0))) = 1 \<and>
   Title (hd (doneTaskList [''EPIC-1'', ''EPIC-2''] epicTickets
     (fst (buildScenario epicSerializer [''EPIC-1'', ''EPIC-2''] [''EPIC-2'', ''EPIC-1'']
             epicTickets testEpics 0)))) = ''Done'' \<and>
   length (Prerequisites (hd (doneTaskList [''EPIC-1'', ''EPIC-2''] epicTickets
     (fst (buildScenario epicSerializer [''EPIC-1'', ''EPIC-2''] [''EPIC-2'', ''EPIC-1'']
             epicTickets testEpics 0))))) = 2 \<and>
   Prerequisites (hd (doneTaskList [''EPIC-1'', ''EPIC-2''] epicTickets
     (fst (buildScenario epicSerializer [''EPIC-1'', ''EPIC-2''] [''EPIC-2'', ''EPIC-1'']
             epicTickets testEpics 0)))) ! 0 =
     \<lparr>PrereqIDRef = ID (epicTaskList [''EPIC-1'', ''EPIC-2'']
        (fst (buildScenario epicSerializer [''EPIC-1'', ''EPIC-2''] [''EPIC-2'', ''EPIC-1'']
             epicTickets testEpics 0)) ! 3), Kind = []\<rparr>"
proof -
  let ?scn = "fst (buildScenario epicSerializer [''EPIC-1'', ''EPIC-2''] [''EPIC-2'', ''EPIC-1'']
             epicTickets testEpics 0)"
  let ?D = "doneTaskList [''EPIC-1'', ''EPIC-2''] epicTickets ?scn"
  have r1: "rangeOrder epicSerializer epicTickets [''EPIC-1'', ''EPIC-2'']"
    by code_simp
  have r2: "rangeOrder epicSerializer epicTickets [''EPIC-2'', ''EPIC-1'']"
    by code_simp
  have a: "MilestoneDone epicSerializer \<and> [''EPIC-1'', ''EPIC-2''] \<noteq> []"
    by (simp add: epicSerializer_def)
  note inst = done_milestone [OF r1 r2, of testEpics 0, THEN conjunct1, rule_format, OF a]
  note len = inst [THEN conjunct1]
  note title = inst [THEN conjunct2, THEN conjunct1]
  have plen: "length (Prerequisites (hd ?D)) = 2"
    using inst [THEN conjunct2, THEN conjunct2, THEN conjunct2, THEN conjunct1] by simp
  have j: "0 < length [''EPIC-2'', ''EPIC-1'']"
    by simp
  from inst [THEN conjunct2, THEN conjunct2, THEN conjunct2, THEN conjunct2, rule_format, OF j]
  obtain i where i: "i < length [''EPIC-1'', ''EPIC-2'']"
    "[''EPIC-1'', ''EPIC-2''] ! i = [''EPIC-2'', ''EPIC-1''] ! 0"
    "Prerequisites (hd ?D) ! 0 =
       \<lparr>PrereqIDRef = ID (epicTaskList [''EPIC-1'', ''EPIC-2''] ?scn ! (2 * i + 1)), Kind = []\<rparr>"
    by (elim exE conjE)
  from i(1) have "i = 0 \<or> i = 1"
    by auto
  with i(2) have "i = 1"
    by auto
  with i(3) have "Prerequisites (hd ?D) ! 0 =
       \<lparr>PrereqIDRef = ID (epicTaskList [''EPIC-1'', ''EPIC-2''] ?scn ! 3), Kind = []\<rparr>"
    by simp
  with r1 r2 a len title plen show ?thesis
    by (intro conjI) simp_all
qed

section \<open>Determinism (C8)\<close>





section \<open>The invariant of reference resolution\<close>






section \<open>Reference resolution (C6)\<close>



section \<open>Decimal rendering and counter offsets\<close>

lemma digit_inj: "d < 10 \<Longrightarrow> e < 10 \<Longrightarrow> digit d = digit e \<Longrightarrow> d = e"
  by (simp add: digit_def char_of_quasi_inj)

lemma digit_not_minus: "d < 10 \<Longrightarrow> digit d \<noteq> CHR ''-''"
proof
  assume d: "d < 10" and e: "digit d = CHR ''-''"
  from e have "of_char (digit d) = (of_char (CHR ''-'') :: nat)"
    by simp
  with d show False
    by (simp add: digit_def)
qed

lemma itoa_nat_nonempty: "itoa_nat n \<noteq> []"
  by (subst itoa_nat.simps) simp

lemma itoa_nat_hd: "hd (itoa_nat n) \<noteq> CHR ''-''"
proof (induction n rule: itoa_nat.induct)
  case (1 n)
  show ?case
  proof (cases "n < 10")
    case True
    then show ?thesis
      by (subst itoa_nat.simps) (simp add: digit_not_minus)
  next
    case False
    with 1 itoa_nat_nonempty [of "n div 10"] show ?thesis
      by (subst itoa_nat.simps) simp
  qed
qed

lemma itoa_nat_inj: "itoa_nat n = itoa_nat m \<Longrightarrow> n = m"
proof (induction n arbitrary: m rule: itoa_nat.induct)
  case (1 n)
  show ?case
  proof (cases "n < 10")
    case n: True
    show ?thesis
    proof (cases "m < 10")
      case True
      with n "1.prems" show ?thesis
        by (simp add: itoa_nat.simps [of n] itoa_nat.simps [of m] digit_inj)
    next
      case False
      with n "1.prems" itoa_nat_nonempty [of "m div 10"] show ?thesis
        by (simp add: itoa_nat.simps [of n] itoa_nat.simps [of m] Cons_eq_append_conv)
    qed
  next
    case n: False
    show ?thesis
    proof (cases "m < 10")
      case True
      with n "1.prems" itoa_nat_nonempty [of "n div 10"] show ?thesis
        by (simp add: itoa_nat.simps [of n] itoa_nat.simps [of m] append_eq_Cons_conv)
    next
      case False
      with n "1.prems" have "itoa_nat (n div 10) = itoa_nat (m div 10)"
        and d: "digit (n mod 10) = digit (m mod 10)"
        by (simp_all add: itoa_nat.simps [of n] itoa_nat.simps [of m])
      with "1.IH" n have "n div 10 = m div 10"
        by simp
      moreover from d have "n mod 10 = m mod 10"
        by (rule digit_inj [rotated 2]) simp_all
      ultimately show ?thesis
        by (metis div_mult_mod_eq)
    qed
  qed
qed

lemma itoa_inj: "itoa i = itoa j \<Longrightarrow> i = j"
proof -
  assume e: "itoa i = itoa j"
  have neg: "hd (itoa x) = CHR ''-''" if "x < 0" for x
    using that by (simp add: itoa_def)
  have pos: "hd (itoa x) \<noteq> CHR ''-''" if "\<not> x < 0" for x
    using that by (simp add: itoa_def itoa_nat_hd)
  show ?thesis
  proof (cases "i < 0")
    case True
    with e neg pos have "j < 0"
      by metis
    with True e have "itoa_nat (nat (- i)) = itoa_nat (nat (- j))"
      by (simp add: itoa_def)
    then have "nat (- i) = nat (- j)"
      by (rule itoa_nat_inj)
    with True \<open>j < 0\<close> show ?thesis
      by simp
  next
    case False
    with e neg pos have "\<not> j < 0"
      by metis
    with False e have "itoa_nat (nat i) = itoa_nat (nat j)"
      by (simp add: itoa_def)
    then have "nat i = nat j"
      by (rule itoa_nat_inj)
    with False \<open>\<not> j < 0\<close> show ?thesis
      by simp
  qed
qed

lemma fmt_d_inj: "fmt_d a = fmt_d b \<Longrightarrow> a = b"
  unfolding fmt_d_def by (rule signed_word_eqI) (rule itoa_inj)

lemma fmt_d_minus_one: "fmt_d (- 1) = ''-1''"
  by code_simp

lemma unat_offset: "unat c + k < 2 ^ 64 \<Longrightarrow> unat (c + of_nat k :: counter) = unat c + k"
proof -
  assume b: "unat c + k < 2 ^ 64"
  then have "unat (of_nat k :: counter) = k"
    by (simp add: unat_of_nat)
  with b have "unat c + unat (of_nat k :: counter) < 2 ^ LENGTH(64)"
    by simp
  then have "unat (c + of_nat k) = unat c + unat (of_nat k :: counter)"
    by (rule unat_add_lem [THEN iffD1])
  with \<open>unat (of_nat k :: counter) = k\<close> show ?thesis
    by simp
qed

lemma offset_inj:
  "unat c + j < 2 ^ 64 \<Longrightarrow> unat c + k < 2 ^ 64 \<Longrightarrow>
   (c :: counter) + of_nat j = c + of_nat k \<Longrightarrow> j = k"
  by (metis add_left_cancel unat_offset)

lemma offset_not_minus_one:
  assumes "unat c + k < 2 ^ 64 - 1"
  shows "(c :: counter) + of_nat k \<noteq> - 1"
proof
  assume m: "c + of_nat k = - 1"
  have "c + of_nat (Suc k) = (c + of_nat k) + 1"
    by simp
  also have "\<dots> = 0"
    by (simp only: m) simp
  finally have "c + of_nat (Suc k) = 0" .
  then have "unat (c + of_nat (Suc k)) = 0"
    by simp
  moreover have "unat (c + of_nat (Suc k)) = unat c + Suc k"
    using assms by (intro unat_offset) simp
  ultimately show False
    by simp
qed

section \<open>Distinct identifiers from distinct counter values\<close>

lemma distinct_offset_ids:
  assumes "distinct ks" and "\<forall>k \<in> set ks. unat c + k < 2 ^ 64 - 1"
  shows "distinct (map (\<lambda>k. p @ fmt_d (c + of_nat k)) ks)"
    and "p @ ''-1'' \<notin> set (map (\<lambda>k. p @ fmt_d (c + of_nat k)) ks)"
proof -
  have "inj_on (\<lambda>k. p @ fmt_d (c + of_nat k)) (set ks)"
  proof (rule inj_onI)
    fix j k
    assume j: "j \<in> set ks" and k: "k \<in> set ks"
      and e: "p @ fmt_d (c + of_nat j) = p @ fmt_d (c + of_nat k)"
    from e have "fmt_d (c + of_nat j) = fmt_d (c + of_nat k)"
      by simp
    then have "c + of_nat j = c + of_nat k"
      by (rule fmt_d_inj)
    moreover from j k assms(2) have "unat c + j < 2 ^ 64" "unat c + k < 2 ^ 64"
      by fastforce+
    ultimately show "j = k"
      by (rule offset_inj [rotated 2])
  qed
  with assms(1) show "distinct (map (\<lambda>k. p @ fmt_d (c + of_nat k)) ks)"
    by (simp add: distinct_map)
  show "p @ ''-1'' \<notin> set (map (\<lambda>k. p @ fmt_d (c + of_nat k)) ks)"
  proof
    assume "p @ ''-1'' \<in> set (map (\<lambda>k. p @ fmt_d (c + of_nat k)) ks)"
    then obtain k where k: "k \<in> set ks" and "p @ ''-1'' = p @ fmt_d (c + of_nat k)"
      by auto
    then have "fmt_d (c + of_nat k) = fmt_d (- 1)"
      by (simp add: fmt_d_minus_one)
    then have "c + of_nat k = - 1"
      by (rule fmt_d_inj)
    with offset_not_minus_one [of c k] k assms(2) show False
      by blast
  qed
qed

lemma map_fst_enumerate_fun:
  "map (\<lambda>p. f (fst p)) (enumerate n xs) = map f [n..<n + length xs]"
proof -
  have "map (\<lambda>p. f (fst p)) (enumerate n xs) = map f (map fst (enumerate n xs))"
    by (simp only: map_map comp_def)
  also have "\<dots> = map f [n..<n + length xs]"
    by (simp only: map_fst_enumerate)
  finally show ?thesis .
qed

lemma staff_ids:
  "map ResID (staffResources (staffOf c ts)) =
     map (\<lambda>k. ''r'' @ fmt_d (c + of_nat k))
         [2..<2 + length (firstAppearance (filter (\<lambda>a. a \<noteq> []) (map Assignee ts)))]"
proof -
  define names where "names = firstAppearance (filter (\<lambda>a. a \<noteq> []) (map Assignee ts))"
  have "map ResID (map (\<lambda>(j, a). staffResource (''r'' @ fmt_d (c + 1 + 1 + of_nat j)) a)
                       (enumerate 0 names)) =
        map (\<lambda>p. ''r'' @ fmt_d (c + of_nat (fst p + 2))) (enumerate 0 names)"
    by (simp add: staffResource_def split_def comp_def ac_simps)
  also have "\<dots> = map (\<lambda>j. ''r'' @ fmt_d (c + of_nat (j + 2))) [0..<0 + length names]"
    by (rule map_fst_enumerate_fun)
  also have "\<dots> = map (\<lambda>k. ''r'' @ fmt_d (c + of_nat k)) (map (\<lambda>j. j + 2) [0..<length names])"
    by (simp add: comp_def)
  also have "\<dots> = map (\<lambda>k. ''r'' @ fmt_d (c + of_nat k)) [2..<2 + length names]"
    by (simp only: map_add_upt add.commute)
  finally show ?thesis
    using staff_closed [of "c + 1" ts] by (simp add: staffOf_def names_def)
qed

lemma staff_count:
  "length (firstAppearance (filter (\<lambda>a. a \<noteq> []) (map Assignee ts))) \<le> length ts"
proof -
  have "length (firstAppearance xs) \<le> length xs" for xs :: "string list"
    unfolding firstAppearance_def by (metis length_remdups_leq length_rev)
  from this [of "filter (\<lambda>a. a \<noteq> []) (map Assignee ts)"]
  have "length (firstAppearance (filter (\<lambda>a. a \<noteq> []) (map Assignee ts))) \<le>
      length (filter (\<lambda>a. a \<noteq> []) (map Assignee ts))" .
  also have "\<dots> \<le> length (map Assignee ts)"
    by (rule length_filter_le)
  finally show ?thesis
    by simp
qed

lemma rangeOrder_count: "rangeOrder s ts ord \<Longrightarrow> length ord \<le> length ts"
proof -
  assume r: "rangeOrder s ts ord"
  then have "length ord = length (epicKeys s ts)"
    by (metis distinct_card distinct_firstAppearance distinct.simps(1) epicKeys_def rangeOrder_def)
  also have "\<dots> \<le> length ts"
  proof (cases "GroupByEpic s")
    case False
    then show ?thesis by (simp add: epicKeys_def)
  next
    case True
    have "length (firstAppearance xs) \<le> length xs" for xs :: "string list"
      unfolding firstAppearance_def by (metis length_remdups_leq length_rev)
    from this [of "filter (\<lambda>k. k \<noteq> []) (map EpicLink ts)"]
    have "length (epicKeys s ts) \<le> length (filter (\<lambda>k. k \<noteq> []) (map EpicLink ts))"
      using True by (simp add: epicKeys_def)
    also have "\<dots> \<le> length (map EpicLink ts)"
      by (rule length_filter_le)
    finally show ?thesis by simp
  qed
  finally show ?thesis .
qed

end
